theory Spec2Isabelle
  imports Complex_Main "HOL-Library.AList"
begin

section \<open>JSON values and JavaScript conventions\<close>

text \<open>
  Every payload the dashboard handles is the result of \<^verbatim>\<open>response.json()\<close> or
  \<^verbatim>\<open>JSON.parse\<close>. An object is kept as the list of its entries in insertion
  order. The dashboard code consults numbers only for their truthiness, so a number is
  kept as an integer.
\<close>

datatype json =
    JNull
  | JBool bool
  | JNum int
  | JStr string
  | JArr "json list"
  | JObj "(string \<times> json) list"

type_synonym obj = "(string \<times> json) list"

text \<open>JavaScript truthiness, as used by \<^verbatim>\<open>x || y\<close>, \<^verbatim>\<open>x && y\<close> and \<^verbatim>\<open>if (x)\<close>.\<close>

fun truthy :: "json \<Rightarrow> bool" where
  "truthy JNull = False"
| "truthy (JBool b) = b"
| "truthy (JNum n) = (n \<noteq> 0)"
| "truthy (JStr s) = (s \<noteq> [])"
| "truthy (JArr xs) = True"
| "truthy (JObj kvs) = True"

text \<open>\<^verbatim>\<open>x || y\<close>\<close>

definition js_or :: "json \<Rightarrow> json \<Rightarrow> json" where
  "js_or x y = (if truthy x then x else y)"

text \<open>
  Property read \<^verbatim>\<open>x.k\<close> for the fixed keys the dashboard reads; \<open>None\<close> is
  \<^verbatim>\<open>undefined\<close>. Reading a property of \<^verbatim>\<open>null\<close> raises a TypeError, which the
  callers treat separately.
\<close>

fun get_prop :: "json \<Rightarrow> string \<Rightarrow> json option" where
  "get_prop (JObj kvs) k = map_of kvs k"
| "get_prop _ k = None"

definition truthy_opt :: "json option \<Rightarrow> bool" where
  "truthy_opt v = (case v of None \<Rightarrow> False | Some x \<Rightarrow> truthy x)"

text \<open>Decimal rendering of a natural number, as string interpolation produces it.\<close>

definition digit_char :: "nat \<Rightarrow> char" where
  "digit_char n = ''0123456789'' ! (n mod 10)"

fun dec :: "nat \<Rightarrow> string" where
  "dec n = (if n < 10 then [digit_char n] else dec (n div 10) @ [digit_char (n mod 10)])"

declare dec.simps [simp del]

section \<open>API client (services/apiService.js)\<close>

text \<open>
  What \<^verbatim>\<open>fetch\<close> can do to one request: the abort controller fires after
  \<^verbatim>\<open>requestTimeout\<close>, the network fails, or a response arrives with a status, a body
  text and the outcome of parsing the body as JSON.
\<close>

datatype json_parse = SyntaxError string | Parsed json

datatype http_result =
    Aborted
  | NetworkFailure string
  | Response nat string json_parse

text \<open>A settled promise: rejected with an error message, or fulfilled with a value.\<close>

datatype 'a settled = Rejected string | Fulfilled 'a

definition requestTimeout :: nat where
  "requestTimeout = 15000"

definition response_ok :: "nat \<Rightarrow> bool" where
  "response_ok status = (200 \<le> status \<and> status \<le> 299)"

definition request :: "http_result \<Rightarrow> json settled" where
  "request r =
     (case r of
        Aborted \<Rightarrow>
          Rejected (''Request timed out after '' @ dec (requestTimeout div 1000) @ ''s'')
      | NetworkFailure msg \<Rightarrow> Rejected msg
      | Response status errorText body \<Rightarrow>
          if \<not> response_ok status
          then Rejected (''API Error: '' @ dec status @ '' - '' @ errorText)
          else (case body of SyntaxError msg \<Rightarrow> Rejected msg | Parsed data \<Rightarrow> Fulfilled data))"

text \<open>
  The backend as the client sees it during one wave of requests: the outcome of the
  request to each endpoint.
\<close>

type_synonym backend = "string \<Rightarrow> http_result"

definition getAvailableStrategies :: "backend \<Rightarrow> json settled" where
  "getAvailableStrategies be =
     (case request (be ''/strategies/available'') of
        Fulfilled result \<Rightarrow> Fulfilled result
      | Rejected e \<Rightarrow> Rejected e)"

definition getHealth :: "backend \<Rightarrow> json settled" where
  "getHealth be = request (be ''/health'')"

definition getAllStrategiesStatus :: "backend \<Rightarrow> json settled" where
  "getAllStrategiesStatus be =
     (case request (be ''/strategies/status'') of
        Fulfilled v \<Rightarrow> Fulfilled v
      | Rejected e \<Rightarrow> Fulfilled (JObj []))"

definition getWallet :: "backend \<Rightarrow> json settled" where
  "getWallet be =
     (case request (be ''/wallet'') of
        Fulfilled v \<Rightarrow> Fulfilled v
      | Rejected e \<Rightarrow> Fulfilled (JObj []))"

definition getMarketData :: "backend \<Rightarrow> string \<Rightarrow> json settled" where
  "getMarketData be symbol =
     (case request (be (''/market/'' @ symbol)) of
        Fulfilled v \<Rightarrow> Fulfilled v
      | Rejected e \<Rightarrow> Fulfilled (JObj []))"

definition getPositions :: "backend \<Rightarrow> string \<Rightarrow> json settled" where
  "getPositions be symbol =
     (case request (be (''/positions/'' @ symbol)) of
        Fulfilled v \<Rightarrow> Fulfilled v
      | Rejected e \<Rightarrow> Fulfilled (JObj []))"

definition getTrades :: "backend \<Rightarrow> json settled" where
  "getTrades be =
     (case request (be ''/trades'') of
        Fulfilled v \<Rightarrow> Fulfilled v
      | Rejected e \<Rightarrow> Fulfilled (JArr []))"

definition getTradeStats :: "backend \<Rightarrow> json settled" where
  "getTradeStats be =
     (case request (be ''/trade_stats'') of
        Fulfilled v \<Rightarrow> Fulfilled v
      | Rejected e \<Rightarrow> Fulfilled (JObj []))"

definition startStrategy :: "backend \<Rightarrow> json settled" where
  "startStrategy be = request (be ''/strategies/start'')"

definition stopStrategy :: "backend \<Rightarrow> json settled" where
  "stopStrategy be = request (be ''/strategies/stop'')"

definition unavailable_health :: json where
  "unavailable_health =
     JObj [(''success'', JBool False),
           (''result'', JObj [(''summary'', JObj [(''status'', JStr ''unavailable'')])])]"

definition getSystemHealth :: "backend \<Rightarrow> json settled" where
  "getSystemHealth be =
     (case request (be ''/system/health'') of
        Fulfilled v \<Rightarrow> Fulfilled v
      | Rejected e \<Rightarrow> Fulfilled unavailable_health)"

definition getSMCAnalysis :: "backend \<Rightarrow> string \<Rightarrow> json settled" where
  "getSMCAnalysis be symbol =
     (case request (be (''/smc_analysis/'' @ symbol)) of
        Fulfilled v \<Rightarrow> Fulfilled v
      | Rejected e \<Rightarrow> Fulfilled JNull)"

definition getCandles :: "backend \<Rightarrow> string \<Rightarrow> string \<Rightarrow> nat \<Rightarrow> json settled" where
  "getCandles be symbol timeframe limit =
     (case request (be (''/candles/'' @ symbol @ ''?timeframe='' @ timeframe
                          @ ''&limit='' @ dec limit)) of
        Fulfilled v \<Rightarrow> Fulfilled v
      | Rejected e \<Rightarrow> Rejected e)"

text \<open>A request fails when the promise returned by \<open>request\<close> is rejected.\<close>

definition request_fails :: "http_result \<Rightarrow> bool" where
  "request_fails r = (case request r of Rejected e \<Rightarrow> True | Fulfilled v \<Rightarrow> False)"

section \<open>Alert deriver (components/AlertsPanel.js)\<close>

datatype alert_type = AlertError | AlertWarning | AlertSuccess | AlertInfo

datatype priority = High | Medium | Low

text \<open>
  The message of an alert is a template filled with one value. The value is kept, the
  rendering of the template is not: \<^verbatim>\<open>strategy.error\<close>, \<^verbatim>\<open>Math.floor(runningHours)\<close>,
  \<^verbatim>\<open>pnlPercent\<close> and \<^verbatim>\<open>Math.abs(pnlPercent)\<close>.
\<close>

datatype alert_message =
    StrategyErrorText string
  | RunningHours int
  | PositionUp real
  | PositionDown real

record alert =
  alert_id :: string
  alert_kind :: alert_type
  alert_symbol :: string
  title :: string
  message :: alert_message
  timestamp :: int
  priority :: priority

text \<open>
  One entry of the \<^verbatim>\<open>strategies\<close> prop. \<open>strategy_error\<close> is \<^verbatim>\<open>strategy.error\<close>
  (\<open>None\<close> when absent or null); \<open>start_time\<close> is
  \<^verbatim>\<open>new Date(strategy.start_time).getTime()\<close> in milliseconds, \<open>None\<close> when the field
  is falsy or does not parse as a date (the hours are then NaN and no test on them holds).
\<close>

record strategy =
  running :: bool
  strategy_error :: "string option"
  start_time :: "int option"

text \<open>
  A numeric field of a position as \<^verbatim>\<open>parseFloat(field || 0)\<close> reads it: absent (or
  falsy) fields read as 0, text that is not a number reads as NaN (\<open>None\<close>). Numbers
  are real numbers here; the rounding of IEEE doubles is not modelled.
\<close>

datatype numeric_field = Absent | NotANumber | Number real

fun parseFloat_or_zero :: "numeric_field \<Rightarrow> real option" where
  "parseFloat_or_zero Absent = Some 0"
| "parseFloat_or_zero NotANumber = None"
| "parseFloat_or_zero (Number x) = Some x"

record position =
  unrealized_pnl :: numeric_field
  margin :: numeric_field
  position_symbol :: string

definition strategy_alerts :: "int \<Rightarrow> string \<times> strategy \<Rightarrow> alert list" where
  "strategy_alerts currentTime entry =
     (case entry of (symb, st) \<Rightarrow>
        if running st then
          (case strategy_error st of
             None \<Rightarrow> []
           | Some msg \<Rightarrow>
               if msg \<noteq> [] then
                 [\<lparr>alert_id = symb @ ''-error'', alert_kind = AlertError, alert_symbol = symb,
                   title = ''Strategy Error'', message = StrategyErrorText msg,
                   timestamp = currentTime, priority = High\<rparr>]
               else [])
          @
          (case start_time st of
             None \<Rightarrow> []
           | Some startTime \<Rightarrow>
               (let runningHours = real_of_int (currentTime - startTime) / (1000 * 60 * 60)
                in if runningHours > 24 then
                     [\<lparr>alert_id = symb @ ''-longtime'', alert_kind = AlertWarning, alert_symbol = symb,
                       title = ''Long Running Strategy'',
                       message = RunningHours \<lfloor>runningHours\<rfloor>,
                       timestamp = currentTime, priority = Low\<rparr>]
                   else []))
        else [])"

definition position_alerts :: "int \<Rightarrow> nat \<times> position \<Rightarrow> alert list" where
  "position_alerts currentTime entry =
     (case entry of (index, pos) \<Rightarrow>
        (case parseFloat_or_zero (margin pos) of
           None \<Rightarrow> []
         | Some mrg \<Rightarrow>
             if mrg > 0 then
               (case parseFloat_or_zero (unrealized_pnl pos) of
                  None \<Rightarrow> []
                | Some pnl \<Rightarrow>
                    (let pnlPercent = (pnl / mrg) * 100
                     in if pnlPercent > 50 then
                          [\<lparr>alert_id = ''pos-'' @ dec index @ ''-profit'',
                            alert_kind = AlertSuccess, alert_symbol = position_symbol pos,
                            title = ''High Profit Position'', message = PositionUp pnlPercent,
                            timestamp = currentTime, priority = Medium\<rparr>]
                        else if pnlPercent < - 20 then
                          [\<lparr>alert_id = ''pos-'' @ dec index @ ''-loss'',
                            alert_kind = AlertWarning, alert_symbol = position_symbol pos,
                            title = ''Position At Loss'', message = PositionDown \<bar>pnlPercent\<bar>,
                            timestamp = currentTime, priority = High\<rparr>]
                        else []))
             else []))"

text \<open>
  The body of the effect up to \<^verbatim>\<open>setAlerts\<close>. \<^verbatim>\<open>Object.entries(strategies || {})\<close> is
  the list of entries; an absent \<^verbatim>\<open>positions\<close> prop is the empty list.
\<close>

definition newAlerts :: "int \<Rightarrow> (string \<times> strategy) list \<Rightarrow> position list \<Rightarrow> alert list" where
  "newAlerts currentTime strats positions =
     concat (map (strategy_alerts currentTime) strats)
     @ concat (map (position_alerts currentTime) (enumerate 0 positions))"

text \<open>
  \<^verbatim>\<open>Array.prototype.sort\<close> with the comparator \<^verbatim>\<open>b.timestamp - a.timestamp\<close>: a stable
  sort, newest first.
\<close>

definition sort_newest_first :: "alert list \<Rightarrow> alert list" where
  "sort_newest_first xs = sort_key (\<lambda>a. - timestamp a) xs"

text \<open>The updater passed to \<^verbatim>\<open>setAlerts\<close>.\<close>

definition merge_alerts :: "int \<Rightarrow> alert list \<Rightarrow> alert list \<Rightarrow> alert list" where
  "merge_alerts currentTime new prevAlerts =
     (let existingIds = map alert_id prevAlerts;
          uniqueNewAlerts = filter (\<lambda>a. \<not> List.member existingIds (alert_id a)) new;
          dayAgo = currentTime - (24 * 60 * 60 * 1000)
      in sort_newest_first (filter (\<lambda>a. timestamp a > dayAgo) (prevAlerts @ uniqueNewAlerts)))"

definition derive_alerts ::
  "int \<Rightarrow> (string \<times> strategy) list \<Rightarrow> position list \<Rightarrow> alert list \<Rightarrow> alert list" where
  "derive_alerts currentTime strats positions prevAlerts =
     merge_alerts currentTime (newAlerts currentTime strats positions) prevAlerts"

definition dismissAlert :: "string \<Rightarrow> alert list \<Rightarrow> alert list" where
  "dismissAlert alertId prev = filter (\<lambda>a. alert_id a \<noteq> alertId) prev"

definition clearAllAlerts :: "alert list \<Rightarrow> alert list" where
  "clearAllAlerts prev = []"

text \<open>
  The life of the panel: the effect runs whenever the props change (at the time
  \<^verbatim>\<open>Date.now()\<close> returns), and the user dismisses one alert or clears them all.
\<close>

datatype panel_event =
    Props_change int "(string \<times> strategy) list" "position list"
  | Dismiss string
  | Clear_all

fun panel_step :: "panel_event \<Rightarrow> alert list \<Rightarrow> alert list" where
  "panel_step (Props_change t strats positions) alerts = derive_alerts t strats positions alerts"
| "panel_step (Dismiss alertId) alerts = dismissAlert alertId alerts"
| "panel_step Clear_all alerts = clearAllAlerts alerts"

fun panel_run :: "panel_event list \<Rightarrow> alert list \<Rightarrow> alert list" where
  "panel_run [] alerts = alerts"
| "panel_run (e # es) alerts = panel_run es (panel_step e alerts)"

text \<open>
  A props object has each key once: the entries of \<^verbatim>\<open>strategies\<close> have distinct symbols.
\<close>

fun wellformed_event :: "panel_event \<Rightarrow> bool" where
  "wellformed_event (Props_change t strats positions) = distinct (map fst strats)"
| "wellformed_event _ = True"

definition newest_first :: "alert list \<Rightarrow> bool" where
  "newest_first xs = sorted_wrt (\<lambda>a b. timestamp a \<ge> timestamp b) xs"

section \<open>Dashboard state (TradingDashboard in components/PositionMonitor.js)\<close>

definition TRACKED_SYMBOLS :: "string list" where
  "TRACKED_SYMBOLS = [''BTCUSD'', ''ETHUSD'', ''XRPUSD'', ''SOLUSD'']"

datatype connection_status = Disconnected | Connecting | Connected | ConnectionError

text \<open>
  The view model: the values held by the \<^verbatim>\<open>useState\<close> hooks that the fetching code
  writes. \<open>balance\<close> and \<open>wallet\<close> are the two fields of \<^verbatim>\<open>accountData\<close>;
  \<open>lastUpdate\<close> is the clock reading of \<^verbatim>\<open>new Date()\<close>. The remaining hooks
  (\<^verbatim>\<open>activeTab\<close>, \<^verbatim>\<open>showMetrics\<close>, \<^verbatim>\<open>data\<close>) hold what only the markup reads.
\<close>

record view_model =
  selectedSymbol :: string
  selectedStrategyType :: string
  availableStrategies :: "json list"
  strategies :: json
  marketData :: obj
  balance :: json
  wallet :: json
  positionData :: obj
  tradeData :: json
  tradeStats :: json
  loading :: bool
  error :: "string option"
  lastUpdate :: "nat option"
  connectionStatus :: connection_status
  retryCount :: nat
  alertsCount :: nat
  systemHealth :: json

text \<open>
  An asynchronous function that is suspended at an \<^verbatim>\<open>await\<close>. \<^verbatim>\<open>fetchData\<close> has four
  suspension points: inside \<^verbatim>\<open>fetchAvailableStrategies\<close>, at the first
  \<^verbatim>\<open>Promise.allSettled\<close>, at \<^verbatim>\<open>Promise.all(marketPromises)\<close> (the flag records whether
  the per-symbol closures found the component mounted and issued their requests) and at
  the second \<^verbatim>\<open>Promise.allSettled\<close> (the flags record which of
  \<^verbatim>\<open>fetchPositionData\<close>, \<^verbatim>\<open>fetchTradeData\<close>, \<^verbatim>\<open>fetchSystemHealth\<close> are still pending).
\<close>

datatype task =
    FetchData_strategies
  | FetchData_basic
  | FetchData_market bool
  | FetchData_additional bool bool bool
  | FetchStrategiesStatus
  | FetchMarketData
  | HandleStartStrategy
  | HandleStopStrategy

text \<open>The two callbacks handed to \<^verbatim>\<open>setTimeout\<close>.\<close>

datatype callback =
    FetchData_if_mounted
  | ConnectWebSocket string

datatype ready_state = CONNECTING | OPEN | CLOSING | CLOSED

text \<open>
  A WebSocket object of the browser, with the symbol its handlers closed over.
\<close>

record websocket =
  ws_symbol :: string
  readyState :: ready_state

text \<open>
  The component: its view model, its refs (\<^verbatim>\<open>isMounted\<close>, \<^verbatim>\<open>fetchInProgress\<close>,
  \<^verbatim>\<open>wsRef\<close>), and what the event loop holds for it: pending timeouts with their
  delay, suspended asynchronous functions, and the sockets it has created.
  \<^verbatim>\<open>timeoutRef\<close> is never assigned and stays null.
\<close>

record dashboard =
  vm :: view_model
  isMounted :: bool
  fetchInProgress :: bool
  wsRef :: "nat option"
  timers :: "(nat \<times> callback) list"
  inflight :: "task list"
  sockets :: "websocket list"

definition safeSetState :: "(view_model \<Rightarrow> view_model) \<Rightarrow> dashboard \<Rightarrow> dashboard" where
  "safeSetState setter s = (if isMounted s then s\<lparr>vm := setter (vm s)\<rparr> else s)"

subsection \<open>Object and array literals with spreads\<close>

text \<open>\<^verbatim>\<open>[...x]\<close>: the elements of an iterable; \<open>None\<close> is the TypeError of a non-iterable.\<close>

fun iterate :: "json option \<Rightarrow> json list option" where
  "iterate (Some (JArr xs)) = Some xs"
| "iterate (Some (JStr cs)) = Some (map (\<lambda>c. JStr [c]) cs)"
| "iterate _ = None"

text \<open>\<^verbatim>\<open>{...x}\<close>: the own enumerable properties of a value.\<close>

fun own_entries :: "json \<Rightarrow> obj" where
  "own_entries (JObj kvs) = kvs"
| "own_entries (JArr xs) = zip (map dec [0..<length xs]) xs"
| "own_entries (JStr cs) = zip (map dec [0..<length cs]) (map (\<lambda>c. JStr [c]) cs)"
| "own_entries _ = []"

text \<open>\<^verbatim>\<open>o[k] = v\<close> on an object literal under construction.\<close>

definition assign :: "obj \<Rightarrow> string \<times> json \<Rightarrow> obj" where
  "assign acc kv = AList.update (fst kv) (snd kv) acc"

definition spread_into :: "obj \<Rightarrow> obj \<Rightarrow> obj" where
  "spread_into acc kvs = foldl assign acc kvs"

subsection \<open>The fetch functions\<close>

definition typeerror_message :: string where
  "typeerror_message = ''undefined is not iterable''"

text \<open>
  The array literal \<^verbatim>\<open>[...result.built_in, ...result.discovered, ...result.current_directory]\<close>;
  \<open>None\<close> when it raises a TypeError.
\<close>

definition allStrategies :: "json \<Rightarrow> json list option" where
  "allStrategies response =
     (case get_prop response ''result'' of
        None \<Rightarrow> None
      | Some JNull \<Rightarrow> None
      | Some result \<Rightarrow>
          (case iterate (get_prop result ''built_in'') of
             None \<Rightarrow> None
           | Some a \<Rightarrow>
               (case iterate (get_prop result ''discovered'') of
                  None \<Rightarrow> None
                | Some b \<Rightarrow>
                    (case iterate (get_prop result ''current_directory'') of
                       None \<Rightarrow> None
                     | Some c \<Rightarrow> Some (a @ b @ c)))))"

definition strategies_error :: "string \<Rightarrow> view_model \<Rightarrow> view_model" where
  "strategies_error msg v = v\<lparr>error := Some (''Failed to load available strategies: '' @ msg)\<rparr>"

text \<open>
  \<^verbatim>\<open>fetchAvailableStrategies\<close> from the point where
  \<^verbatim>\<open>await APIService.getAvailableStrategies()\<close> settles; the boolean is its return value.
\<close>

definition fetchAvailableStrategies :: "json settled \<Rightarrow> dashboard \<Rightarrow> bool \<times> dashboard" where
  "fetchAvailableStrategies r s =
     (case r of
        Fulfilled response \<Rightarrow>
          if truthy response \<and> truthy_opt (get_prop response ''success'') then
            (case allStrategies response of
               Some allStrats \<Rightarrow> (True, safeSetState (\<lambda>v. v\<lparr>availableStrategies := allStrats\<rparr>) s)
             | None \<Rightarrow> (False, safeSetState (strategies_error typeerror_message) s))
          else
            (False, safeSetState (strategies_error ''Invalid response from strategies endpoint'') s)
      | Rejected msg \<Rightarrow> (False, safeSetState (strategies_error msg) s))"

definition fetchStrategiesStatus :: "json settled \<Rightarrow> dashboard \<Rightarrow> dashboard" where
  "fetchStrategiesStatus r s =
     (case r of
        Fulfilled statusResponse \<Rightarrow>
          safeSetState (\<lambda>v. v\<lparr>strategies := js_or statusResponse (JObj [])\<rparr>) s
      | Rejected e \<Rightarrow> s)"

definition fetchMarketData :: "(string \<Rightarrow> json settled) \<Rightarrow> dashboard \<Rightarrow> dashboard" where
  "fetchMarketData results s =
     (let marketResponse =
            foldl (\<lambda>acc symbol.
                     assign acc (symbol, case results symbol of
                                           Fulfilled data \<Rightarrow> data
                                         | Rejected e \<Rightarrow> JObj []))
                  [] TRACKED_SYMBOLS
      in safeSetState (\<lambda>v. v\<lparr>marketData := marketResponse\<rparr>) s)"

definition fetchWalletData :: "json settled \<Rightarrow> dashboard \<Rightarrow> dashboard" where
  "fetchWalletData r s =
     (case r of
        Fulfilled walletResponse \<Rightarrow>
          safeSetState (\<lambda>v. v\<lparr>wallet := js_or walletResponse (JArr [])\<rparr>) s
      | Rejected e \<Rightarrow> s)"

definition fetchPositionData :: "(string \<Rightarrow> json settled) \<Rightarrow> dashboard \<Rightarrow> dashboard" where
  "fetchPositionData results s =
     (let positionResponse =
            foldl (\<lambda>acc symbol.
                     assign acc (symbol, case results symbol of
                                           Fulfilled data \<Rightarrow> data
                                         | Rejected e \<Rightarrow> JObj []))
                  [] TRACKED_SYMBOLS
      in safeSetState (\<lambda>v. v\<lparr>positionData := positionResponse\<rparr>) s)"

definition fetchTradeData :: "json settled \<Rightarrow> json settled \<Rightarrow> dashboard \<Rightarrow> dashboard" where
  "fetchTradeData trades stats s =
     (case trades of
        Rejected e \<Rightarrow> s
      | Fulfilled tradesResponse \<Rightarrow>
          (case stats of
             Rejected e \<Rightarrow> s
           | Fulfilled statsResponse \<Rightarrow>
               safeSetState (\<lambda>v. v\<lparr>tradeStats := js_or statsResponse (JObj [])\<rparr>)
                 (safeSetState (\<lambda>v. v\<lparr>tradeData := js_or tradesResponse (JArr [])\<rparr>) s)))"

definition fetchSystemHealth :: "json settled \<Rightarrow> dashboard \<Rightarrow> dashboard" where
  "fetchSystemHealth r s =
     (case r of
        Fulfilled healthResponse \<Rightarrow>
          safeSetState (\<lambda>v. v\<lparr>systemHealth := js_or healthResponse (JObj [])\<rparr>) s
      | Rejected e \<Rightarrow> s)"

subsection \<open>WebSocket feed\<close>

text \<open>
  \<^verbatim>\<open>connectWebSocket\<close> of the effect that ran with \<^verbatim>\<open>selectedSymbol = symbol\<close>: a new
  socket, stored in \<^verbatim>\<open>wsRef.current\<close>, whose handlers close over \<open>symbol\<close>.
\<close>

definition connectWebSocket :: "string \<Rightarrow> dashboard \<Rightarrow> dashboard" where
  "connectWebSocket symbol s =
     s\<lparr>sockets := sockets s @ [\<lparr>ws_symbol = symbol, readyState = CONNECTING\<rparr>],
       wsRef := Some (length (sockets s))\<rparr>"

text \<open>\<^verbatim>\<open>ws.close()\<close>: a connecting or open socket starts closing; otherwise nothing.\<close>

definition close_socket :: "nat \<Rightarrow> dashboard \<Rightarrow> dashboard" where
  "close_socket i s =
     (if i < length (sockets s)
         \<and> (readyState (sockets s ! i) = CONNECTING \<or> readyState (sockets s ! i) = OPEN)
      then s\<lparr>sockets := (sockets s)[i := (sockets s ! i)\<lparr>readyState := CLOSING\<rparr>]\<rparr>
      else s)"

text \<open>\<^verbatim>\<open>if (wsRef.current) wsRef.current.close()\<close>\<close>

definition close_current :: "dashboard \<Rightarrow> dashboard" where
  "close_current s = (case wsRef s of None \<Rightarrow> s | Some i \<Rightarrow> close_socket i s)"

text \<open>
  \<^verbatim>\<open>onmessage\<close>: \<open>None\<close> is a payload that \<^verbatim>\<open>JSON.parse\<close> rejects. The handler calls
  \<^verbatim>\<open>setMarketData\<close> directly with
  \<^verbatim>\<open>{...prev, [selectedSymbol]: {...prev[selectedSymbol], ...data}}\<close>.
\<close>

definition patch_market :: "string \<Rightarrow> json \<Rightarrow> obj \<Rightarrow> obj" where
  "patch_market symbol data prev =
     assign prev
       (symbol,
        JObj (spread_into
                (spread_into [] (case map_of prev symbol of
                                   None \<Rightarrow> []
                                 | Some snapshot \<Rightarrow> own_entries snapshot))
                (own_entries data)))"

definition ws_onmessage :: "string \<Rightarrow> json option \<Rightarrow> dashboard \<Rightarrow> dashboard" where
  "ws_onmessage symbol payload s =
     (case payload of
        None \<Rightarrow> s
      | Some data \<Rightarrow> s\<lparr>vm := (vm s)\<lparr>marketData := patch_market symbol data (marketData (vm s))\<rparr>\<rparr>)"

text \<open>\<^verbatim>\<open>onclose\<close>: \<^verbatim>\<open>setTimeout(connectWebSocket, 5000)\<close>\<close>

definition ws_onclose :: "string \<Rightarrow> dashboard \<Rightarrow> dashboard" where
  "ws_onclose symbol s = s\<lparr>timers := timers s @ [(5000, ConnectWebSocket symbol)]\<rparr>"

subsection \<open>Teardown and failed renders\<close>

text \<open>
  The cleanups that run on unmount, in the order of the effects: the socket effect closes
  \<^verbatim>\<open>wsRef.current\<close>; the last effect clears \<^verbatim>\<open>isMounted\<close>, closes \<^verbatim>\<open>wsRef.current\<close>
  again and clears \<^verbatim>\<open>fetchInProgress\<close>. \<^verbatim>\<open>clearTimeout(timeoutRef.current)\<close> clears
  nothing, since \<^verbatim>\<open>timeoutRef.current\<close> is null; the intervals are cleared, which the
  interval events below respect through the guard of their callbacks.
\<close>

definition unmount :: "dashboard \<Rightarrow> dashboard" where
  "unmount s = (close_current ((close_current s)\<lparr>isMounted := False\<rparr>))\<lparr>fetchInProgress := False\<rparr>"

text \<open>
  The render function of the component is markup and is not modelled; what the fetching
  code observes of it is whether it returns. React renders after every event-loop turn
  that has written state. When the render function, or a state updater that React runs
  for it, raises, the render fails, and since \<^verbatim>\<open>App\<close> places no error boundary above
  \<^verbatim>\<open>TradingDashboard\<close> (the \<^verbatim>\<open>ErrorBoundary\<close> in its markup guards its children only),
  React removes the whole tree: the cleanups of \<open>unmount\<close> run. \<open>renders v\<close> tells
  whether the render function returns for the view model \<open>v\<close>, the hooks that only the
  markup writes being what they are during the cycle. It is a parameter of the cycle:
  what is proved of a cycle holds for every such function, the one of the source among
  them.
\<close>

definition react_commit :: "(view_model \<Rightarrow> bool) \<Rightarrow> dashboard \<Rightarrow> dashboard" where
  "react_commit renders s = (if isMounted s \<and> \<not> renders (vm s) then unmount s else s)"

subsection \<open>fetchData\<close>

text \<open>
  How a call of \<^verbatim>\<open>fetchData\<close> ends: the guard at its head returns at once, the body runs
  to its last statement, the \<^verbatim>\<open>catch\<close> block runs with the message of the error
  thrown, or one of the \<^verbatim>\<open>if (!isMounted.current) return\<close> statements leaves the body.
  In the last three cases the \<^verbatim>\<open>finally\<close> block runs.
\<close>

datatype outcome = Not_started | Completed | Caught string | Returned_unmounted

datatype progress = Suspended task | Finished outcome

definition fetchData_catch :: "string \<Rightarrow> dashboard \<Rightarrow> dashboard" where
  "fetchData_catch msg s =
     safeSetState (\<lambda>v. v\<lparr>retryCount := retryCount v + 1\<rparr>)
       (safeSetState (\<lambda>v. v\<lparr>connectionStatus := ConnectionError\<rparr>)
          (safeSetState (\<lambda>v. v\<lparr>error := Some (if msg \<noteq> [] then msg
                                                  else ''Unknown error occurred'')\<rparr>) s))"

definition fetchData_finally :: "dashboard \<Rightarrow> dashboard" where
  "fetchData_finally s =
     (if isMounted s then safeSetState (\<lambda>v. v\<lparr>loading := False\<rparr>) s else s)
       \<lparr>fetchInProgress := False\<rparr>"

text \<open>From the call to the first \<^verbatim>\<open>await\<close>.\<close>

definition fetchData_start :: "dashboard \<Rightarrow> progress \<times> dashboard" where
  "fetchData_start s =
     (if \<not> isMounted s \<or> fetchInProgress s then (Finished Not_started, s)
      else (Suspended FetchData_strategies,
            safeSetState (\<lambda>v. v\<lparr>connectionStatus := Connecting\<rparr>)
              (safeSetState (\<lambda>v. v\<lparr>error := None\<rparr>)
                 (s\<lparr>fetchInProgress := True\<rparr>))))"

text \<open>From the settling of the strategy-list request to the first \<^verbatim>\<open>Promise.allSettled\<close>.\<close>

definition fetchData_after_strategies :: "json settled \<Rightarrow> dashboard \<Rightarrow> progress \<times> dashboard" where
  "fetchData_after_strategies r s =
     (case fetchAvailableStrategies r s of
        (strategiesLoaded, s1) \<Rightarrow>
          if \<not> strategiesLoaded then
            (Finished (Caught ''Failed to load available strategies''),
             fetchData_finally (fetchData_catch ''Failed to load available strategies'' s1))
          else (Suspended FetchData_basic, s1))"

text \<open>
  The updater \<^verbatim>\<open>prev => ({...prev, balance: healthData.account_balance || 0})\<close> passed to
  \<^verbatim>\<open>setAccountData\<close>. React runs it when it renders after the turn. Reading a property
  of \<^verbatim>\<open>null\<close> raises a TypeError there: \<open>None\<close>. Every other JSON value has the
  property or reads as \<^verbatim>\<open>undefined\<close>.
\<close>

definition set_balance :: "json \<Rightarrow> view_model \<Rightarrow> view_model option" where
  "set_balance healthData prev =
     (case healthData of
        JNull \<Rightarrow> None
      | _ \<Rightarrow> Some (prev\<lparr>balance := (case get_prop healthData ''account_balance'' of
                                        None \<Rightarrow> JNum 0
                                      | Some b \<Rightarrow> js_or b (JNum 0))\<rparr>))"

text \<open>
  From the settling of health, status and wallet to \<^verbatim>\<open>Promise.all(marketPromises)\<close>.
  The closures of \<^verbatim>\<open>marketPromises\<close> run in this turn and find the component mounted.
  When the balance updater raises, the render that follows the turn fails and React
  unmounts the component before the market requests settle: none of the writes of the
  turn is shown, and the function returns at its next look at \<^verbatim>\<open>isMounted\<close>.
\<close>

definition fetchData_after_basic ::
  "json settled \<Rightarrow> json settled \<Rightarrow> json settled \<Rightarrow> dashboard \<Rightarrow> progress \<times> dashboard" where
  "fetchData_after_basic healthResult strategiesResult walletResult s =
     (if \<not> isMounted s then (Finished Returned_unmounted, fetchData_finally s)
      else
        (case healthResult of
           Rejected reason \<Rightarrow>
             (Finished (Caught (''Health check failed: '' @ reason)),
              fetchData_finally (fetchData_catch (''Health check failed: '' @ reason) s))
         | Fulfilled healthData \<Rightarrow>
             (let s1 = safeSetState (\<lambda>v. v\<lparr>connectionStatus := Connected\<rparr>) s;
                  s2 = safeSetState (\<lambda>prev. case set_balance healthData prev of
                                               Some v \<Rightarrow> v
                                             | None \<Rightarrow> prev) s1;
                  s3 = (case strategiesResult of
                          Fulfilled val \<Rightarrow>
                            safeSetState (\<lambda>v. v\<lparr>strategies := js_or val (JObj [])\<rparr>) s2
                        | Rejected reason \<Rightarrow>
                            safeSetState (\<lambda>v. v\<lparr>strategies := JObj []\<rparr>) s2);
                  s4 = (case walletResult of
                          Fulfilled val \<Rightarrow>
                            safeSetState (\<lambda>v. v\<lparr>wallet := js_or val (JArr [])\<rparr>) s3
                        | Rejected reason \<Rightarrow> s3)
              in (Suspended (FetchData_market (isMounted s4)),
                  case set_balance healthData (vm s1) of
                    None \<Rightarrow> unmount s4
                  | Some v \<Rightarrow> s4))))"

text \<open>
  What one closure of \<^verbatim>\<open>marketPromises\<close> resolves to; \<open>requested\<close> tells whether it
  found the component mounted and called \<^verbatim>\<open>getMarketData\<close>.
\<close>

definition market_result :: "(string \<Rightarrow> json settled) \<Rightarrow> bool \<Rightarrow> string \<Rightarrow> string \<times> json" where
  "market_result results requested symbol =
     (if \<not> requested then (symbol, JObj [])
      else (case results symbol of
              Fulfilled data \<Rightarrow> (symbol, js_or data (JObj []))
            | Rejected e \<Rightarrow> (symbol, JObj [])))"

text \<open>From the settling of the market requests to the second \<^verbatim>\<open>Promise.allSettled\<close>.\<close>

definition fetchData_after_market ::
  "(string \<Rightarrow> json settled) \<Rightarrow> bool \<Rightarrow> dashboard \<Rightarrow> progress \<times> dashboard" where
  "fetchData_after_market results requested s =
     (let marketResults = map (market_result results requested) TRACKED_SYMBOLS
      in if \<not> isMounted s then (Finished Returned_unmounted, fetchData_finally s)
         else
           (let newMarketData = foldl assign [] marketResults
            in (Suspended (FetchData_additional True True True),
                safeSetState (\<lambda>v. v\<lparr>marketData := newMarketData\<rparr>) s)))"

text \<open>From the settling of the second wave to the end.\<close>

definition fetchData_after_additional :: "nat \<Rightarrow> dashboard \<Rightarrow> progress \<times> dashboard" where
  "fetchData_after_additional now s =
     (Finished Completed,
      fetchData_finally
        (safeSetState (\<lambda>v. v\<lparr>retryCount := 0\<rparr>)
           (safeSetState (\<lambda>v. v\<lparr>lastUpdate := Some now\<rparr>) s)))"

text \<open>The flag carried by the function parked at \<^verbatim>\<open>Promise.all(marketPromises)\<close>.\<close>

fun requested_of :: "task \<Rightarrow> bool" where
  "requested_of (FetchData_market requested) = requested"
| "requested_of _ = False"

text \<open>
  One whole sync cycle with no other event in between: \<^verbatim>\<open>fetchData\<close> from call to
  return, every request answered by \<open>be\<close>, the clock reading \<open>now\<close> at the end, and
  React rendering after every turn that writes state. The cycle is given from each of its
  suspension points on; the three functions of the second wave settle one turn each.
\<close>

definition cycle_from_additional ::
  "(view_model \<Rightarrow> bool) \<Rightarrow> backend \<Rightarrow> nat \<Rightarrow> dashboard \<Rightarrow> outcome \<times> dashboard" where
  "cycle_from_additional renders be now s =
     (let s1 = react_commit renders (fetchPositionData (getPositions be) s);
          s2 = react_commit renders (fetchTradeData (getTrades be) (getTradeStats be) s1);
          s3 = react_commit renders (fetchSystemHealth (getSystemHealth be) s2)
      in (case fetchData_after_additional now s3 of
            (Finished out, s4) \<Rightarrow> (out, react_commit renders s4)
          | (Suspended t, s4) \<Rightarrow> (Completed, react_commit renders s4)))"

definition cycle_from_market ::
  "(view_model \<Rightarrow> bool) \<Rightarrow> backend \<Rightarrow> nat \<Rightarrow> bool \<Rightarrow> dashboard \<Rightarrow> outcome \<times> dashboard" where
  "cycle_from_market renders be now requested s =
     (case fetchData_after_market (getMarketData be) requested s of
        (Finished out, s1) \<Rightarrow> (out, react_commit renders s1)
      | (Suspended t, s1) \<Rightarrow> cycle_from_additional renders be now (react_commit renders s1))"

definition cycle_from_basic ::
  "(view_model \<Rightarrow> bool) \<Rightarrow> backend \<Rightarrow> nat \<Rightarrow> dashboard \<Rightarrow> outcome \<times> dashboard" where
  "cycle_from_basic renders be now s =
     (case fetchData_after_basic (getHealth be) (getAllStrategiesStatus be) (getWallet be) s of
        (Finished out, s1) \<Rightarrow> (out, react_commit renders s1)
      | (Suspended t, s1) \<Rightarrow>
          cycle_from_market renders be now (requested_of t) (react_commit renders s1))"

definition cycle_from_strategies ::
  "(view_model \<Rightarrow> bool) \<Rightarrow> backend \<Rightarrow> nat \<Rightarrow> dashboard \<Rightarrow> outcome \<times> dashboard" where
  "cycle_from_strategies renders be now s =
     (case fetchData_after_strategies (getAvailableStrategies be) s of
        (Finished out, s1) \<Rightarrow> (out, react_commit renders s1)
      | (Suspended t, s1) \<Rightarrow> cycle_from_basic renders be now (react_commit renders s1))"

definition sync_cycle ::
  "(view_model \<Rightarrow> bool) \<Rightarrow> backend \<Rightarrow> nat \<Rightarrow> dashboard \<Rightarrow> outcome \<times> dashboard" where
  "sync_cycle renders be now s =
     (case fetchData_start s of
        (Finished out, s1) \<Rightarrow> (out, s1)
      | (Suspended t, s1) \<Rightarrow> cycle_from_strategies renders be now (react_commit renders s1))"

subsection \<open>Strategy control and retry\<close>

definition no_response :: json where
  "no_response = JObj [(''success'', JBool False), (''message'', JStr ''No response from server'')]"

definition failure_result :: "string \<Rightarrow> json" where
  "failure_result msg = JObj [(''success'', JBool False), (''message'', JStr msg)]"

text \<open>
  \<^verbatim>\<open>handleStartStrategy\<close> from the point where \<^verbatim>\<open>await APIService.startStrategy(...)\<close>
  settles. The first component is the value the handler returns to the strategy panel,
  which shows its \<^verbatim>\<open>message\<close> when \<^verbatim>\<open>success\<close> is false.
\<close>

definition handleStartStrategy :: "json settled \<Rightarrow> dashboard \<Rightarrow> json \<times> dashboard" where
  "handleStartStrategy r s =
     (case r of
        Fulfilled result \<Rightarrow>
          (js_or result no_response,
           if truthy result \<and> truthy_opt (get_prop result ''success'') \<and> isMounted s
           then safeSetState (\<lambda>v. v\<lparr>alertsCount := alertsCount v + 1\<rparr>)
                  (s\<lparr>timers := timers s @ [(1000, FetchData_if_mounted)]\<rparr>)
           else s)
      | Rejected msg \<Rightarrow> (failure_result msg, s))"

definition handleStopStrategy :: "json settled \<Rightarrow> dashboard \<Rightarrow> json \<times> dashboard" where
  "handleStopStrategy r s =
     (case r of
        Fulfilled result \<Rightarrow>
          (js_or result no_response,
           if truthy result \<and> truthy_opt (get_prop result ''success'') \<and> isMounted s
           then safeSetState (\<lambda>v. v\<lparr>alertsCount := alertsCount v + 1\<rparr>)
                  (s\<lparr>timers := timers s @ [(1000, FetchData_if_mounted)]\<rparr>)
           else s)
      | Rejected msg \<Rightarrow> (failure_result msg, s))"

text \<open>
  \<^verbatim>\<open>Math.min(1000 * Math.pow(2, retryCount), 10000)\<close>. A power of two is exact in a
  double until it overflows to Infinity, and the minimum is 10000 from \<open>2 ^ 4\<close> on, so
  the natural-number reading gives the same delay for every count.
\<close>

definition retry_delay :: "nat \<Rightarrow> nat" where
  "retry_delay count = min (1000 * 2 ^ count) 10000"

definition handleRetry :: "dashboard \<Rightarrow> dashboard" where
  "handleRetry s =
     s\<lparr>timers := timers s @ [(retry_delay (retryCount (vm s)), FetchData_if_mounted)]\<rparr>"

subsection \<open>The component in the event loop\<close>

datatype subtask = Positions | Trades | SystemHealth

text \<open>
  What can happen to the mounted component, one event-loop turn each: a call of
  \<^verbatim>\<open>fetchData\<close> (from the effect that runs on mount and whenever its dependencies
  change), a click, a timeout or interval firing, a suspended function resumed with the
  answers to its requests, a socket event delivered by the browser, and the unmount.
\<close>

datatype event =
    Call_fetchData
  | Click_refresh
  | Click_retry
  | Click_symbol string
  | Click_start
  | Click_stop
  | Timeout nat
  | Interval_market
  | Interval_status
  | Resume nat backend nat
  | Resume_sub nat subtask backend nat
  | Ws_open nat
  | Ws_message nat "json option"
  | Ws_error nat
  | Ws_close nat
  | Unmount

definition remove_nth :: "nat \<Rightarrow> 'a list \<Rightarrow> 'a list" where
  "remove_nth i xs = take i xs @ drop (Suc i) xs"

text \<open>A call of \<^verbatim>\<open>fetchData\<close>: up to its first \<^verbatim>\<open>await\<close>, where it is parked.\<close>

definition call_fetchData :: "dashboard \<Rightarrow> dashboard" where
  "call_fetchData s =
     (case fetchData_start s of
        (Suspended t, s1) \<Rightarrow> s1\<lparr>inflight := inflight s1 @ [t]\<rparr>
      | (Finished out, s1) \<Rightarrow> s1)"

text \<open>The suspended function at position \<open>i\<close> has run to its next \<^verbatim>\<open>await\<close> or to its end.\<close>

definition settle :: "nat \<Rightarrow> progress \<times> dashboard \<Rightarrow> dashboard" where
  "settle i ps =
     (case ps of
        (Suspended t, s1) \<Rightarrow> s1\<lparr>inflight := (inflight s1)[i := t]\<rparr>
      | (Finished out, s1) \<Rightarrow> s1\<lparr>inflight := remove_nth i (inflight s1)\<rparr>)"

text \<open>
  One of the three functions of the second wave has finished; when none is pending the
  \<^verbatim>\<open>Promise.allSettled\<close> resolves and \<^verbatim>\<open>fetchData\<close> runs to its end.
\<close>

definition join :: "nat \<Rightarrow> bool \<Rightarrow> bool \<Rightarrow> bool \<Rightarrow> nat \<Rightarrow> dashboard \<Rightarrow> dashboard" where
  "join i p t h now s =
     (if p \<or> t \<or> h then s\<lparr>inflight := (inflight s)[i := FetchData_additional p t h]\<rparr>
      else settle i (fetchData_after_additional now s))"

definition resume :: "nat \<Rightarrow> backend \<Rightarrow> nat \<Rightarrow> dashboard \<Rightarrow> dashboard" where
  "resume i be now s =
     (if i < length (inflight s) then
        (case inflight s ! i of
           FetchData_strategies \<Rightarrow>
             settle i (fetchData_after_strategies (getAvailableStrategies be) s)
         | FetchData_basic \<Rightarrow>
             settle i (fetchData_after_basic (getHealth be) (getAllStrategiesStatus be)
                         (getWallet be) s)
         | FetchData_market requested \<Rightarrow>
             settle i (fetchData_after_market (getMarketData be) requested s)
         | FetchData_additional p t h \<Rightarrow> s
         | FetchStrategiesStatus \<Rightarrow>
             settle i (Finished Completed, fetchStrategiesStatus (getAllStrategiesStatus be) s)
         | FetchMarketData \<Rightarrow>
             settle i (Finished Completed, fetchMarketData (getMarketData be) s)
         | HandleStartStrategy \<Rightarrow>
             settle i (Finished Completed, snd (handleStartStrategy (startStrategy be) s))
         | HandleStopStrategy \<Rightarrow>
             settle i (Finished Completed, snd (handleStopStrategy (stopStrategy be) s)))
      else s)"

definition resume_sub :: "nat \<Rightarrow> subtask \<Rightarrow> backend \<Rightarrow> nat \<Rightarrow> dashboard \<Rightarrow> dashboard" where
  "resume_sub i sub be now s =
     (if i < length (inflight s) then
        (case inflight s ! i of
           FetchData_additional p t h \<Rightarrow>
             (case sub of
                Positions \<Rightarrow>
                  if p then join i False t h now (fetchPositionData (getPositions be) s) else s
              | Trades \<Rightarrow>
                  if t then join i p False h now
                              (fetchTradeData (getTrades be) (getTradeStats be) s)
                  else s
              | SystemHealth \<Rightarrow>
                  if h then join i p t False now (fetchSystemHealth (getSystemHealth be) s)
                  else s)
         | _ \<Rightarrow> s)
      else s)"

definition run_callback :: "callback \<Rightarrow> dashboard \<Rightarrow> dashboard" where
  "run_callback cb s =
     (case cb of
        FetchData_if_mounted \<Rightarrow> if isMounted s then call_fetchData s else s
      | ConnectWebSocket symbol \<Rightarrow> connectWebSocket symbol s)"

text \<open>
  The three screens of the render function. The loading screen is shown for
  \<^verbatim>\<open>loading && availableStrategies.length === 0 && !accountData.balance\<close>, otherwise the
  error screen for \<^verbatim>\<open>error && availableStrategies.length === 0 && !accountData.balance\<close>,
  otherwise the main view. The Retry button is on the error screen; the Refresh button,
  the symbol buttons and the strategy panels with their start and stop buttons are on the
  main view.
\<close>

definition loading_screen :: "view_model \<Rightarrow> bool" where
  "loading_screen v = (loading v \<and> availableStrategies v = [] \<and> \<not> truthy (balance v))"

definition error_screen :: "view_model \<Rightarrow> bool" where
  "error_screen v =
     (\<not> loading_screen v
      \<and> (case error v of None \<Rightarrow> False | Some msg \<Rightarrow> msg \<noteq> [])
      \<and> availableStrategies v = [] \<and> \<not> truthy (balance v))"

definition main_view :: "view_model \<Rightarrow> bool" where
  "main_view v = (\<not> loading_screen v \<and> \<not> error_screen v)"

text \<open>
  A click on a symbol button: \<^verbatim>\<open>setSelectedSymbol\<close>, then the socket effect's cleanup and
  the effect itself for the new symbol. The buttons exist for the tracked symbols while
  the component is mounted and shows the main view; a click on the selected symbol
  changes nothing.
\<close>

definition select_symbol :: "string \<Rightarrow> dashboard \<Rightarrow> dashboard" where
  "select_symbol symbol s =
     (if isMounted s \<and> main_view (vm s) \<and> symbol \<in> set TRACKED_SYMBOLS
         \<and> symbol \<noteq> selectedSymbol (vm s)
      then connectWebSocket symbol (close_current (s\<lparr>vm := (vm s)\<lparr>selectedSymbol := symbol\<rparr>\<rparr>))
      else s)"

fun step :: "event \<Rightarrow> dashboard \<Rightarrow> dashboard" where
  "step Call_fetchData s = call_fetchData s"
| "step Click_refresh s =
     (if isMounted s \<and> main_view (vm s)
      then call_fetchData (safeSetState (\<lambda>v. v\<lparr>loading := True\<rparr>) s)
      else s)"
| "step Click_retry s = (if isMounted s \<and> error_screen (vm s) then handleRetry s else s)"
| "step (Click_symbol symbol) s = select_symbol symbol s"
| "step Click_start s =
     (if isMounted s \<and> main_view (vm s)
      then s\<lparr>inflight := inflight s @ [HandleStartStrategy]\<rparr>
      else s)"
| "step Click_stop s =
     (if isMounted s \<and> main_view (vm s)
      then s\<lparr>inflight := inflight s @ [HandleStopStrategy]\<rparr>
      else s)"
| "step (Timeout i) s =
     (if i < length (timers s)
      then run_callback (snd (timers s ! i)) (s\<lparr>timers := remove_nth i (timers s)\<rparr>)
      else s)"
| "step Interval_market s =
     (if isMounted s \<and> \<not> fetchInProgress s \<and> connectionStatus (vm s) = Connected
      then s\<lparr>inflight := inflight s @ [FetchStrategiesStatus, FetchMarketData]\<rparr>
      else s)"
| "step Interval_status s =
     (if connectionStatus (vm s) = Connected \<and> isMounted s \<and> \<not> fetchInProgress s
      then s\<lparr>inflight := inflight s @ [FetchStrategiesStatus]\<rparr>
      else s)"
| "step (Resume i be now) s = resume i be now s"
| "step (Resume_sub i sub be now) s = resume_sub i sub be now s"
| "step (Ws_open i) s =
     (if i < length (sockets s) \<and> readyState (sockets s ! i) = CONNECTING
      then s\<lparr>sockets := (sockets s)[i := (sockets s ! i)\<lparr>readyState := OPEN\<rparr>]\<rparr>
      else s)"
| "step (Ws_message i payload) s =
     (if i < length (sockets s) \<and> readyState (sockets s ! i) = OPEN
      then ws_onmessage (ws_symbol (sockets s ! i)) payload s
      else s)"
| "step (Ws_error i) s = s"
| "step (Ws_close i) s =
     (if i < length (sockets s) \<and> readyState (sockets s ! i) \<noteq> CLOSED
      then ws_onclose (ws_symbol (sockets s ! i))
             (s\<lparr>sockets := (sockets s)[i := (sockets s ! i)\<lparr>readyState := CLOSED\<rparr>]\<rparr>)
      else s)"
| "step Unmount s = unmount s"

fun run :: "event list \<Rightarrow> dashboard \<Rightarrow> dashboard" where
  "run [] s = s"
| "run (e # es) s = run es (step e s)"

text \<open>The component after its first render, before any effect has run.\<close>

definition initial_view_model :: view_model where
  "initial_view_model =
     \<lparr>selectedSymbol = ''BTCUSD'', selectedStrategyType = ''ema_strategy'',
      availableStrategies = [], strategies = JObj [], marketData = [],
      balance = JNum 0, wallet = JArr [], positionData = [], tradeData = JArr [],
      tradeStats = JObj [], loading = True, error = None, lastUpdate = None,
      connectionStatus = Disconnected, retryCount = 0, alertsCount = 0,
      systemHealth = JObj []\<rparr>"

definition initial_dashboard :: dashboard where
  "initial_dashboard =
     \<lparr>vm = initial_view_model, isMounted = True, fetchInProgress = False, wsRef = None,
      timers = [], inflight = [], sockets = []\<rparr>"

text \<open>
  The effects of the mount: the refresh effect calls \<^verbatim>\<open>fetchData\<close>, the socket effect
  calls \<^verbatim>\<open>connectWebSocket\<close>.
\<close>

definition mounted_dashboard :: dashboard where
  "mounted_dashboard =
     connectWebSocket (selectedSymbol (vm initial_dashboard)) (call_fetchData initial_dashboard)"

text \<open>The number of calls of \<^verbatim>\<open>fetchData\<close> that have passed the guard and not returned.\<close>

fun is_cycle :: "task \<Rightarrow> bool" where
  "is_cycle FetchData_strategies = True"
| "is_cycle FetchData_basic = True"
| "is_cycle (FetchData_market requested) = True"
| "is_cycle (FetchData_additional p t h) = True"
| "is_cycle _ = False"

definition active_cycles :: "dashboard \<Rightarrow> nat" where
  "active_cycles s = length (filter is_cycle (inflight s))"

subsection \<open>The two mandatory calls\<close>

text \<open>
  The strategy-list call fails when \<^verbatim>\<open>fetchAvailableStrategies\<close> returns false: the
  request is rejected, or the response is not \<^verbatim>\<open>{success: true, result: {...}}\<close> with
  three lists. The health check fails when \<^verbatim>\<open>getHealth\<close> is rejected.
\<close>

definition valid_strategies_response :: "json \<Rightarrow> bool" where
  "valid_strategies_response response =
     (truthy response \<and> truthy_opt (get_prop response ''success'')
      \<and> allStrategies response \<noteq> None)"

definition strategy_list_fails :: "backend \<Rightarrow> bool" where
  "strategy_list_fails be =
     (case getAvailableStrategies be of
        Rejected e \<Rightarrow> True
      | Fulfilled response \<Rightarrow> \<not> valid_strategies_response response)"

definition health_check_fails :: "backend \<Rightarrow> bool" where
  "health_check_fails be = (case getHealth be of Rejected e \<Rightarrow> True | Fulfilled v \<Rightarrow> False)"

definition mandatory_call_fails :: "backend \<Rightarrow> bool" where
  "mandatory_call_fails be = (strategy_list_fails be \<or> health_check_fails be)"

text \<open>What the cycle stores for one symbol, from the outcome of that symbol's request.\<close>

definition stored_snapshot :: "http_result \<Rightarrow> json" where
  "stored_snapshot r =
     (case request r of Rejected e \<Rightarrow> JObj [] | Fulfilled data \<Rightarrow> js_or data (JObj []))"

subsection \<open>Sample backends and states\<close>

definition healthy_backend :: backend where
  "healthy_backend endpoint =
     (if endpoint = ''/strategies/available'' then
        Response 200 []
          (Parsed (JObj [(''success'', JBool True),
                         (''result'', JObj [(''built_in'', JArr [JStr ''ema_strategy'']),
                                            (''discovered'', JArr []),
                                            (''current_directory'', JArr [])])]))
      else if endpoint = ''/health'' then
        Response 200 [] (Parsed (JObj [(''account_balance'', JNum 1000)]))
      else if endpoint = ''/strategies/status'' then
        Response 200 [] (Parsed (JObj [(''BTCUSD'', JObj [(''running'', JBool True)])]))
      else if endpoint = ''/wallet'' then
        Response 200 [] (Parsed (JArr [JObj [(''asset'', JStr ''USD'')]]))
      else if endpoint = ''/trades'' then
        Response 200 [] (Parsed (JArr []))
      else if endpoint = ''/strategies/start'' \<or> endpoint = ''/strategies/stop'' then
        Response 200 [] (Parsed (JObj [(''success'', JBool True), (''message'', JStr ''ok'')]))
      else Response 200 [] (Parsed (JObj [(''mark_price'', JNum 50000)])))"

definition failing_at :: "string \<Rightarrow> backend \<Rightarrow> backend" where
  "failing_at endpoint be = be(endpoint := NetworkFailure ''Failed to fetch'')"

definition unreachable_backend :: backend where
  "unreachable_backend endpoint = NetworkFailure ''Failed to fetch''"

definition maintenance_backend :: backend where
  "maintenance_backend endpoint = Response 503 ''down'' (Parsed JNull)"

text \<open>
  A render function that returns for every view model. The sample runs below use it:
  their backends answer with objects, lists, numbers and strings where the markup reads
  them.
\<close>

definition always_renders :: "view_model \<Rightarrow> bool" where
  "always_renders v = True"

text \<open>The dashboard after a first cycle against the healthy backend.\<close>

definition synced_dashboard :: dashboard where
  "synced_dashboard = snd (sync_cycle always_renders healthy_backend 1000 initial_dashboard)"

subsection \<open>Failed attempts and retries\<close>










text \<open>A backend whose health endpoint answers 200 with the body \<^verbatim>\<open>null\<close>.\<close>

definition null_health_backend :: backend where
  "null_health_backend = healthy_backend(''/health'' := Response 200 [] (Parsed JNull))"

text \<open>Two answers of the backend to a start or stop command.\<close>

definition started :: json where
  "started = JObj [(''success'', JBool True), (''message'', JStr ''Strategy started'')]"

definition refused :: json where
  "refused = JObj [(''success'', JBool False), (''message'', JStr ''Already running'')]"

text \<open>A position with margin 100 and an unrealized profit of 60.\<close>

definition profitable_position :: position where
  "profitable_position =
     \<lparr>unrealized_pnl = Number 60, margin = Number 100, position_symbol = ''BTCUSD''\<rparr>"

subsection \<open>Mutual exclusion of sync cycles\<close>

text \<open>
  The invariant behind the guard of \<^verbatim>\<open>fetchData\<close>: at most one call is past the guard,
  and while the component is mounted with \<^verbatim>\<open>fetchInProgress\<close> clear there is none.
\<close>

definition single_cycle :: "dashboard \<Rightarrow> bool" where
  "single_cycle s =
     (active_cycles s \<le> 1 \<and> (isMounted s \<and> \<not> fetchInProgress s \<longrightarrow> active_cycles s = 0))"

text \<open>
  A phase either parks the cycle again, leaving the flag as it is unless the component
  has been unmounted, or ends it with the flag cleared.
\<close>

definition phase_ok :: "dashboard \<Rightarrow> progress \<times> dashboard \<Rightarrow> bool" where
  "phase_ok s ps =
     (inflight (snd ps) = inflight s
      \<and> (case fst ps of
            Suspended t \<Rightarrow>
              is_cycle t
              \<and> (isMounted (snd ps) \<longrightarrow>
                    isMounted s \<and> fetchInProgress (snd ps) = fetchInProgress s)
          | Finished out \<Rightarrow> \<not> fetchInProgress (snd ps)))"

subsection \<open>Sample traces of the socket feed\<close>

definition price_update :: json where
  "price_update = JObj [(''mark_price'', JNum 50001)]"

text \<open>
  The cycle that the mount has started runs to its end against the healthy backend,
  after which the main view is shown.
\<close>

definition first_cycle :: "event list" where
  "first_cycle =
     [Resume 0 healthy_backend 1000, Resume 0 healthy_backend 1000, Resume 0 healthy_backend 1000,
      Resume_sub 0 Positions healthy_backend 1000, Resume_sub 0 Trades healthy_backend 1000,
      Resume_sub 0 SystemHealth healthy_backend 1000]"

text \<open>
  After the first cycle the BTCUSD socket opens, the user switches to ETHUSD, the browser
  reports the closing of the BTCUSD socket, and the timeout set by its \<^verbatim>\<open>onclose\<close>
  handler fires and the socket it creates opens.
\<close>

definition switch_trace :: "event list" where
  "switch_trace =
     first_cycle @ [Ws_open 0, Click_symbol ''ETHUSD'', Ws_close 0, Timeout 0, Ws_open 2]"

text \<open>The snapshot that the healthy backend serves for every symbol.\<close>

definition market_snapshot :: json where
  "market_snapshot = JObj [(''mark_price'', JNum 50000)]"

text \<open>
  The BTCUSD socket opens, the component unmounts, the browser reports the closing of the
  socket, and the timeout set by its \<^verbatim>\<open>onclose\<close> handler fires and the socket it creates
  opens.
\<close>

definition unmount_trace :: "event list" where
  "unmount_trace = [Ws_open 0, Unmount, Ws_close 0, Timeout 0, Ws_open 1]"

section \<open>Properties of the API client\<close>

text \<open>
  Claim C10. The wrappers \<^verbatim>\<open>getAllStrategiesStatus\<close>, \<^verbatim>\<open>getWallet\<close>, \<^verbatim>\<open>getMarketData\<close>,
  \<^verbatim>\<open>getPositions\<close>, \<^verbatim>\<open>getTrades\<close>, \<^verbatim>\<open>getTradeStats\<close> and \<^verbatim>\<open>getSystemHealth\<close> never
  reject: when the underlying request is rejected (timeout, non-2xx status, network
  failure, unparsable body) each is fulfilled with its fixed fallback value, which is
  exactly what it returns for a successful response carrying that same value, so the
  caller cannot tell the two apart (\<^verbatim>\<open>getSMCAnalysis\<close> does the same with
  \<^verbatim>\<open>null\<close>). \<^verbatim>\<open>getAvailableStrategies\<close>, \<^verbatim>\<open>getHealth\<close>,
  \<^verbatim>\<open>startStrategy\<close>, \<^verbatim>\<open>stopStrategy\<close> and \<^verbatim>\<open>getCandles\<close> are rejected with the error
  of the request.
\<close>

theorem wrappers_absorb_failures:
  "(request Aborted = Rejected ''Request timed out after 15s'')
 \<and> (request (NetworkFailure msg) = Rejected msg)
 \<and> (\<not> response_ok status \<longrightarrow>
        request (Response status body parsed) = Rejected (''API Error: '' @ dec status @ '' - '' @ body))
 \<and> (request (be ''/strategies/status'') = Rejected e \<longrightarrow>
        getAllStrategiesStatus be = Fulfilled (JObj [])
      \<and> getAllStrategiesStatus be
          = getAllStrategiesStatus (\<lambda>endpoint. Response 200 [] (Parsed (JObj []))))
 \<and> (request (be ''/wallet'') = Rejected e \<longrightarrow>
        getWallet be = Fulfilled (JObj [])
      \<and> getWallet be = getWallet (\<lambda>endpoint. Response 200 [] (Parsed (JObj []))))
 \<and> (request (be (''/market/'' @ symbol)) = Rejected e \<longrightarrow>
        getMarketData be symbol = Fulfilled (JObj [])
      \<and> getMarketData be symbol
          = getMarketData (\<lambda>endpoint. Response 200 [] (Parsed (JObj []))) symbol)
 \<and> (request (be (''/positions/'' @ symbol)) = Rejected e \<longrightarrow>
        getPositions be symbol = Fulfilled (JObj [])
      \<and> getPositions be symbol
          = getPositions (\<lambda>endpoint. Response 200 [] (Parsed (JObj []))) symbol)
 \<and> (request (be ''/trades'') = Rejected e \<longrightarrow>
        getTrades be = Fulfilled (JArr [])
      \<and> getTrades be = getTrades (\<lambda>endpoint. Response 200 [] (Parsed (JArr []))))
 \<and> (request (be ''/trade_stats'') = Rejected e \<longrightarrow>
        getTradeStats be = Fulfilled (JObj [])
      \<and> getTradeStats be = getTradeStats (\<lambda>endpoint. Response 200 [] (Parsed (JObj []))))
 \<and> (request (be ''/system/health'') = Rejected e \<longrightarrow>
        getSystemHealth be = Fulfilled unavailable_health
      \<and> getSystemHealth be
          = getSystemHealth (\<lambda>endpoint. Response 200 [] (Parsed unavailable_health)))
 \<and> (request (be (''/smc_analysis/'' @ symbol)) = Rejected e \<longrightarrow>
        getSMCAnalysis be symbol = Fulfilled JNull)
 \<and> (request (be ''/strategies/available'') = Rejected e \<longrightarrow>
        getAvailableStrategies be = Rejected e)
 \<and> (request (be ''/health'') = Rejected e \<longrightarrow> getHealth be = Rejected e)
 \<and> (request (be ''/strategies/start'') = Rejected e \<longrightarrow> startStrategy be = Rejected e)
 \<and> (request (be ''/strategies/stop'') = Rejected e \<longrightarrow> stopStrategy be = Rejected e)
 \<and> (request (be (''/candles/'' @ symbol @ ''?timeframe='' @ timeframe @ ''&limit='' @ dec limit))
        = Rejected e \<longrightarrow> getCandles be symbol timeframe limit = Rejected e)"
proof -
  have timeout: "dec (requestTimeout div 1000) = ''15''"
    by (simp add: requestTimeout_def dec.simps digit_char_def)
  show ?thesis
    by (simp add: getAllStrategiesStatus_def getWallet_def getMarketData_def getPositions_def
        getSMCAnalysis_def
        getTrades_def getTradeStats_def getSystemHealth_def getAvailableStrategies_def
        getHealth_def startStrategy_def stopStrategy_def getCandles_def request_def
        response_ok_def timeout)
qed

theorem wrappers_absorb_failures_witness:
  "\<not> response_ok 503
 \<and> request (Response 503 ''down'' (Parsed JNull)) = Rejected ''API Error: 503 - down''
 \<and> request (Response 503 ''down'' (Parsed JNull)) = Rejected (''API Error: '' @ dec 503 @ '' - down'')
 \<and> getAllStrategiesStatus maintenance_backend = Fulfilled (JObj [])
 \<and> getWallet maintenance_backend = Fulfilled (JObj [])
 \<and> getMarketData maintenance_backend ''BTCUSD'' = Fulfilled (JObj [])
 \<and> getPositions maintenance_backend ''BTCUSD'' = Fulfilled (JObj [])
 \<and> getTrades maintenance_backend = Fulfilled (JArr [])
 \<and> getTradeStats maintenance_backend = Fulfilled (JObj [])
 \<and> getSystemHealth maintenance_backend = Fulfilled unavailable_health
 \<and> getSMCAnalysis maintenance_backend ''BTCUSD'' = Fulfilled JNull
 \<and> getAvailableStrategies maintenance_backend
      = Rejected ''API Error: 503 - down''
 \<and> getHealth maintenance_backend = Rejected ''API Error: 503 - down''
 \<and> startStrategy maintenance_backend
      = Rejected ''API Error: 503 - down''
 \<and> stopStrategy maintenance_backend
      = Rejected ''API Error: 503 - down''
 \<and> getCandles maintenance_backend ''BTCUSD'' ''1m'' 50
      = Rejected ''API Error: 503 - down''"
proof -
  have nok: "\<not> response_ok 503"
    by (simp add: response_ok_def)
  have d: "dec 503 = ''503''"
    by (simp add: dec.simps digit_char_def)
  have r: "request (Response 503 ''down'' (Parsed JNull)) = Rejected ''API Error: 503 - down''"
    by (simp add: request_def nok d)
  from wrappers_absorb_failures
         [where status = 503 and body = "''down''" and parsed = "Parsed JNull"
            and be = maintenance_backend
            and e = "''API Error: 503 - down''" and symbol = "''BTCUSD''"
            and timeframe = "''1m''" and limit = 50]
       nok r d
  show ?thesis by (simp add: maintenance_backend_def)
qed

section \<open>Frame lemmas\<close>

lemma safeSetState_frame [simp]:
  "isMounted (safeSetState f s) = isMounted s"
  "fetchInProgress (safeSetState f s) = fetchInProgress s"
  "timers (safeSetState f s) = timers s"
  "inflight (safeSetState f s) = inflight s"
  "sockets (safeSetState f s) = sockets s"
  "wsRef (safeSetState f s) = wsRef s"
  "vm (safeSetState f s) = (if isMounted s then f (vm s) else vm s)"
  by (simp_all add: safeSetState_def)

lemma fetchAvailableStrategies_frame [simp]:
  "isMounted (snd (fetchAvailableStrategies r s)) = isMounted s"
  "fetchInProgress (snd (fetchAvailableStrategies r s)) = fetchInProgress s"
  "timers (snd (fetchAvailableStrategies r s)) = timers s"
  "inflight (snd (fetchAvailableStrategies r s)) = inflight s"
  "connectionStatus (vm (snd (fetchAvailableStrategies r s))) = connectionStatus (vm s)"
  "retryCount (vm (snd (fetchAvailableStrategies r s))) = retryCount (vm s)"
  "wallet (vm (snd (fetchAvailableStrategies r s))) = wallet (vm s)"
  by (simp_all add: fetchAvailableStrategies_def strategies_error_def
      split: settled.splits option.splits)

lemma fetchAvailableStrategies_loaded:
  "fst (fetchAvailableStrategies (getAvailableStrategies be) s) = (\<not> strategy_list_fails be)"
  by (simp add: fetchAvailableStrategies_def strategy_list_fails_def valid_strategies_response_def
      split: settled.splits option.splits)

lemma fetchPositionData_frame [simp]:
  "isMounted (fetchPositionData r s) = isMounted s"
  "fetchInProgress (fetchPositionData r s) = fetchInProgress s"
  "timers (fetchPositionData r s) = timers s"
  "inflight (fetchPositionData r s) = inflight s"
  "connectionStatus (vm (fetchPositionData r s)) = connectionStatus (vm s)"
  "retryCount (vm (fetchPositionData r s)) = retryCount (vm s)"
  "strategies (vm (fetchPositionData r s)) = strategies (vm s)"
  "marketData (vm (fetchPositionData r s)) = marketData (vm s)"
  "wallet (vm (fetchPositionData r s)) = wallet (vm s)"
  "error (vm (fetchPositionData r s)) = error (vm s)"
  by (simp_all add: fetchPositionData_def)

lemma fetchTradeData_frame [simp]:
  "isMounted (fetchTradeData a b s) = isMounted s"
  "fetchInProgress (fetchTradeData a b s) = fetchInProgress s"
  "timers (fetchTradeData a b s) = timers s"
  "inflight (fetchTradeData a b s) = inflight s"
  "connectionStatus (vm (fetchTradeData a b s)) = connectionStatus (vm s)"
  "retryCount (vm (fetchTradeData a b s)) = retryCount (vm s)"
  "strategies (vm (fetchTradeData a b s)) = strategies (vm s)"
  "marketData (vm (fetchTradeData a b s)) = marketData (vm s)"
  "wallet (vm (fetchTradeData a b s)) = wallet (vm s)"
  "error (vm (fetchTradeData a b s)) = error (vm s)"
  by (simp_all add: fetchTradeData_def split: settled.splits)

lemma fetchSystemHealth_frame [simp]:
  "isMounted (fetchSystemHealth r s) = isMounted s"
  "fetchInProgress (fetchSystemHealth r s) = fetchInProgress s"
  "timers (fetchSystemHealth r s) = timers s"
  "inflight (fetchSystemHealth r s) = inflight s"
  "connectionStatus (vm (fetchSystemHealth r s)) = connectionStatus (vm s)"
  "retryCount (vm (fetchSystemHealth r s)) = retryCount (vm s)"
  "strategies (vm (fetchSystemHealth r s)) = strategies (vm s)"
  "marketData (vm (fetchSystemHealth r s)) = marketData (vm s)"
  "wallet (vm (fetchSystemHealth r s)) = wallet (vm s)"
  "error (vm (fetchSystemHealth r s)) = error (vm s)"
  by (simp_all add: fetchSystemHealth_def split: settled.splits)

lemma fetchData_catch_frame [simp]:
  "isMounted (fetchData_catch msg s) = isMounted s"
  "fetchInProgress (fetchData_catch msg s) = fetchInProgress s"
  "timers (fetchData_catch msg s) = timers s"
  "inflight (fetchData_catch msg s) = inflight s"
  by (simp_all add: fetchData_catch_def)

lemma fetchData_catch_mounted:
  "isMounted s \<Longrightarrow> connectionStatus (vm (fetchData_catch msg s)) = ConnectionError"
  "isMounted s \<Longrightarrow> retryCount (vm (fetchData_catch msg s)) = retryCount (vm s) + 1"
  by (simp_all add: fetchData_catch_def)

lemma fetchData_finally_frame [simp]:
  "isMounted (fetchData_finally s) = isMounted s"
  "fetchInProgress (fetchData_finally s) = False"
  "timers (fetchData_finally s) = timers s"
  "inflight (fetchData_finally s) = inflight s"
  "connectionStatus (vm (fetchData_finally s)) = connectionStatus (vm s)"
  "retryCount (vm (fetchData_finally s)) = retryCount (vm s)"
  "strategies (vm (fetchData_finally s)) = strategies (vm s)"
  "marketData (vm (fetchData_finally s)) = marketData (vm s)"
  "wallet (vm (fetchData_finally s)) = wallet (vm s)"
  "error (vm (fetchData_finally s)) = error (vm s)"
  "lastUpdate (vm (fetchData_finally s)) = lastUpdate (vm s)"
  by (simp_all add: fetchData_finally_def)

lemma unmount_frame [simp]:
  "isMounted (unmount s) = False"
  "fetchInProgress (unmount s) = False"
  "timers (unmount s) = timers s"
  "inflight (unmount s) = inflight s"
  "vm (unmount s) = vm s"
  by (simp_all add: unmount_def close_current_def close_socket_def split: option.splits)

lemma react_commit_frame [simp]:
  "timers (react_commit renders s) = timers s"
  "inflight (react_commit renders s) = inflight s"
  "vm (react_commit renders s) = vm s"
  "react_commit always_renders s = s"
  by (simp_all add: react_commit_def always_renders_def)

lemma react_commit_mounted:
  assumes "isMounted (react_commit renders s)"
  shows "react_commit renders s = s" and "isMounted s"
  using assms by (simp_all add: react_commit_def split: if_splits)

lemma react_commit_idle:
  "\<not> fetchInProgress s \<Longrightarrow> \<not> fetchInProgress (react_commit renders s)"
  by (simp add: react_commit_def)

lemma phase_frames:
  "isMounted (snd (fetchData_after_strategies r s)) = isMounted s"
  "inflight (snd (fetchData_after_strategies r s)) = inflight s"
  "isMounted (snd (fetchData_after_basic h st w s)) = (isMounted s \<and> h \<noteq> Fulfilled JNull)"
  "inflight (snd (fetchData_after_basic h st w s)) = inflight s"
  "isMounted (snd (fetchData_after_market m q s)) = isMounted s"
  "inflight (snd (fetchData_after_market m q s)) = inflight s"
  "isMounted (snd (fetchData_after_additional now s)) = isMounted s"
  "inflight (snd (fetchData_after_additional now s)) = inflight s"
  by (simp_all add: fetchData_after_strategies_def fetchData_after_basic_def
      fetchData_after_market_def fetchData_after_additional_def case_prod_beta Let_def
      set_balance_def split: settled.splits json.splits)

section \<open>Phases of a cycle on a mounted component\<close>

lemma fetchData_start_idle:
  assumes "isMounted s" "\<not> fetchInProgress s"
  shows "fst (fetchData_start s) = Suspended FetchData_strategies"
    and "isMounted (snd (fetchData_start s))"
    and "timers (snd (fetchData_start s)) = timers s"
    and "fetchInProgress (snd (fetchData_start s))"
    and "retryCount (vm (snd (fetchData_start s))) = retryCount (vm s)"
    and "error (vm (snd (fetchData_start s))) = None"
    and "wallet (vm (snd (fetchData_start s))) = wallet (vm s)"
  using assms by (simp_all add: fetchData_start_def)

lemma after_strategies_fails:
  assumes "isMounted s" "strategy_list_fails be"
  shows "fst (fetchData_after_strategies (getAvailableStrategies be) s)
           = Finished (Caught ''Failed to load available strategies'')"
    and "connectionStatus (vm (snd (fetchData_after_strategies (getAvailableStrategies be) s))) = ConnectionError"
    and "retryCount (vm (snd (fetchData_after_strategies (getAvailableStrategies be) s))) = retryCount (vm s) + 1"
    and "isMounted (snd (fetchData_after_strategies (getAvailableStrategies be) s))"
    and "\<not> fetchInProgress (snd (fetchData_after_strategies (getAvailableStrategies be) s))"
    and "timers (snd (fetchData_after_strategies (getAvailableStrategies be) s)) = timers s"
  using assms fetchAvailableStrategies_loaded [of be s]
  by (simp_all add: fetchData_after_strategies_def fetchData_catch_mounted case_prod_beta)

lemma after_strategies_loaded:
  assumes "\<not> strategy_list_fails be"
  shows "fetchData_after_strategies (getAvailableStrategies be) s
           = (Suspended FetchData_basic, snd (fetchAvailableStrategies (getAvailableStrategies be) s))"
    and "error (vm (snd (fetchAvailableStrategies (getAvailableStrategies be) s))) = error (vm s)"
  using assms fetchAvailableStrategies_loaded [of be s]
  by (auto simp: fetchData_after_strategies_def case_prod_beta fetchAvailableStrategies_def
      strategy_list_fails_def valid_strategies_response_def split: settled.splits option.splits)

lemma after_basic_fails:
  assumes "isMounted s" "health_check_fails be"
  shows "fst (fetchData_after_basic (getHealth be) st w s)
           = Finished (Caught (''Health check failed: ''
                @ (case getHealth be of Rejected reason \<Rightarrow> reason | Fulfilled v \<Rightarrow> [])))"
    and "connectionStatus (vm (snd (fetchData_after_basic (getHealth be) st w s))) = ConnectionError"
    and "retryCount (vm (snd (fetchData_after_basic (getHealth be) st w s))) = retryCount (vm s) + 1"
    and "isMounted (snd (fetchData_after_basic (getHealth be) st w s))"
    and "\<not> fetchInProgress (snd (fetchData_after_basic (getHealth be) st w s))"
    and "timers (snd (fetchData_after_basic (getHealth be) st w s)) = timers s"
  using assms
  by (simp_all add: fetchData_after_basic_def health_check_fails_def fetchData_catch_mounted
      split: settled.splits)

lemma after_basic_healthy:
  assumes "isMounted s" "\<not> health_check_fails be" "getHealth be \<noteq> Fulfilled JNull"
  shows "fst (fetchData_after_basic (getHealth be) st w s) = Suspended (FetchData_market True)"
    and "connectionStatus (vm (snd (fetchData_after_basic (getHealth be) st w s))) = Connected"
    and "strategies (vm (snd (fetchData_after_basic (getHealth be) st w s)))
           = (case st of Fulfilled val \<Rightarrow> js_or val (JObj []) | Rejected e \<Rightarrow> JObj [])"
    and "wallet (vm (snd (fetchData_after_basic (getHealth be) st w s)))
           = (case w of Fulfilled val \<Rightarrow> js_or val (JArr []) | Rejected e \<Rightarrow> wallet (vm s))"
    and "error (vm (snd (fetchData_after_basic (getHealth be) st w s))) = error (vm s)"
    and "isMounted (snd (fetchData_after_basic (getHealth be) st w s))"
    and "fetchInProgress (snd (fetchData_after_basic (getHealth be) st w s)) = fetchInProgress s"
    and "timers (snd (fetchData_after_basic (getHealth be) st w s)) = timers s"
  using assms
  by (simp_all add: fetchData_after_basic_def health_check_fails_def Let_def set_balance_def
      split: settled.splits json.splits)

text \<open>
  A health payload \<^verbatim>\<open>null\<close>: the function is parked at the market requests as usual, and
  the component is unmounted.
\<close>

lemma after_basic_null:
  assumes "isMounted s" "getHealth be = Fulfilled JNull"
  shows "fst (fetchData_after_basic (getHealth be) st w s) = Suspended (FetchData_market True)"
    and "\<not> isMounted (snd (fetchData_after_basic (getHealth be) st w s))"
  using assms
  by (simp_all add: fetchData_after_basic_def Let_def set_balance_def split: settled.splits)

lemma after_market_mounted:
  assumes "isMounted s"
  shows "fst (fetchData_after_market r q s) = Suspended (FetchData_additional True True True)"
    and "connectionStatus (vm (snd (fetchData_after_market r q s))) = connectionStatus (vm s)"
    and "strategies (vm (snd (fetchData_after_market r q s))) = strategies (vm s)"
    and "wallet (vm (snd (fetchData_after_market r q s))) = wallet (vm s)"
    and "error (vm (snd (fetchData_after_market r q s))) = error (vm s)"
    and "marketData (vm (snd (fetchData_after_market r q s)))
           = foldl assign [] (map (market_result r q) TRACKED_SYMBOLS)"
    and "isMounted (snd (fetchData_after_market r q s))"
    and "fetchInProgress (snd (fetchData_after_market r q s)) = fetchInProgress s"
    and "timers (snd (fetchData_after_market r q s)) = timers s"
  using assms
  by (simp_all add: fetchData_after_market_def Let_def)

lemma after_market_unmounted:
  assumes "\<not> isMounted s"
  shows "fst (fetchData_after_market r q s) = Finished Returned_unmounted"
    and "\<not> isMounted (snd (fetchData_after_market r q s))"
  using assms
  by (simp_all add: fetchData_after_market_def Let_def)

lemma after_additional_mounted:
  assumes "isMounted s"
  shows "fst (fetchData_after_additional now s) = Finished Completed"
    and "connectionStatus (vm (snd (fetchData_after_additional now s))) = connectionStatus (vm s)"
    and "strategies (vm (snd (fetchData_after_additional now s))) = strategies (vm s)"
    and "wallet (vm (snd (fetchData_after_additional now s))) = wallet (vm s)"
    and "error (vm (snd (fetchData_after_additional now s))) = error (vm s)"
    and "marketData (vm (snd (fetchData_after_additional now s))) = marketData (vm s)"
    and "retryCount (vm (snd (fetchData_after_additional now s))) = 0"
    and "lastUpdate (vm (snd (fetchData_after_additional now s))) = Some now"
    and "isMounted (snd (fetchData_after_additional now s))"
    and "\<not> fetchInProgress (snd (fetchData_after_additional now s))"
    and "timers (snd (fetchData_after_additional now s)) = timers s"
  using assms
  by (simp_all add: fetchData_after_additional_def)

section \<open>Every cycle clears the flag\<close>

lemma cycle_from_additional_idle:
  "\<not> fetchInProgress (snd (cycle_from_additional renders be now s))"
  by (simp add: cycle_from_additional_def Let_def fetchData_after_additional_def
      react_commit_idle)

lemma cycle_from_market_idle:
  "\<not> fetchInProgress (snd (cycle_from_market renders be now q s))"
  by (simp add: cycle_from_market_def fetchData_after_market_def Let_def react_commit_idle
      cycle_from_additional_idle)

lemma cycle_from_basic_idle:
  "\<not> fetchInProgress (snd (cycle_from_basic renders be now s))"
  by (simp add: cycle_from_basic_def fetchData_after_basic_def Let_def react_commit_idle
      cycle_from_market_idle split: settled.splits)

lemma cycle_from_strategies_idle:
  "\<not> fetchInProgress (snd (cycle_from_strategies renders be now s))"
  by (simp add: cycle_from_strategies_def fetchData_after_strategies_def case_prod_beta
      react_commit_idle cycle_from_basic_idle)

lemma sync_cycle_idle:
  assumes "\<not> fetchInProgress s"
  shows "\<not> fetchInProgress (snd (sync_cycle renders be now s))"
  using assms
  by (simp add: sync_cycle_def fetchData_start_def cycle_from_strategies_idle)

section \<open>A cycle that leaves the component mounted\<close>

text \<open>
  Unmounting is final: a cycle that ends on a mounted component has seen every one of its
  renders return, and runs as it does under a render function that always returns.
\<close>

lemma cycle_from_additional_alive:
  assumes "isMounted (snd (cycle_from_additional renders be now s))"
  shows "cycle_from_additional renders be now s = cycle_from_additional always_renders be now s"
    and "isMounted s"
proof -
  let ?p = "fetchPositionData (getPositions be) s"
  let ?t = "fetchTradeData (getTrades be) (getTradeStats be) (react_commit renders ?p)"
  let ?h = "fetchSystemHealth (getSystemHealth be) (react_commit renders ?t)"
  let ?f = "snd (fetchData_after_additional now (react_commit renders ?h))"
  have result: "cycle_from_additional renders be now s = (Completed, react_commit renders ?f)"
    by (simp add: cycle_from_additional_def Let_def fetchData_after_additional_def)
  with assms have "isMounted (react_commit renders ?f)"
    by simp
  then have f: "react_commit renders ?f = ?f" "isMounted ?f"
    by (rule react_commit_mounted)+
  from f(2) have "isMounted (react_commit renders ?h)"
    by (simp add: fetchData_after_additional_def)
  then have h: "react_commit renders ?h = ?h" "isMounted ?h"
    by (rule react_commit_mounted)+
  from h(2) have "isMounted (react_commit renders ?t)"
    by simp
  then have t: "react_commit renders ?t = ?t" "isMounted ?t"
    by (rule react_commit_mounted)+
  from t(2) have "isMounted (react_commit renders ?p)"
    by simp
  then have p: "react_commit renders ?p = ?p" "isMounted ?p"
    by (rule react_commit_mounted)+
  from p(2) show "isMounted s"
    by simp
  have "cycle_from_additional always_renders be now s
          = (Completed,
             snd (fetchData_after_additional now
                    (fetchSystemHealth (getSystemHealth be)
                       (fetchTradeData (getTrades be) (getTradeStats be) ?p))))"
    by (simp add: cycle_from_additional_def Let_def fetchData_after_additional_def)
  with result f(1) h(1) t(1) p(1)
  show "cycle_from_additional renders be now s = cycle_from_additional always_renders be now s"
    by simp
qed

lemma cycle_from_market_alive:
  assumes "isMounted (snd (cycle_from_market renders be now q s))"
  shows "cycle_from_market renders be now q s = cycle_from_market always_renders be now q s"
    and "isMounted s"
proof -
  let ?m = "fetchData_after_market (getMarketData be) q s"
  have both: "cycle_from_market renders be now q s = cycle_from_market always_renders be now q s
                \<and> isMounted s"
  proof (cases "fst ?m")
    case (Finished out)
    then have "cycle_from_market renders be now q s = (out, react_commit renders (snd ?m))"
      by (simp add: cycle_from_market_def case_prod_beta)
    with assms have "isMounted (react_commit renders (snd ?m))"
      by simp
    then have "react_commit renders (snd ?m) = snd ?m" "isMounted (snd ?m)"
      by (rule react_commit_mounted)+
    with Finished show ?thesis
      by (simp add: cycle_from_market_def case_prod_beta phase_frames)
  next
    case (Suspended t)
    then have "cycle_from_market renders be now q s
                 = cycle_from_additional renders be now (react_commit renders (snd ?m))"
      by (simp add: cycle_from_market_def case_prod_beta)
    with assms
    have rest: "isMounted (snd (cycle_from_additional renders be now (react_commit renders (snd ?m))))"
      by simp
    then have "isMounted (react_commit renders (snd ?m))"
      by (rule cycle_from_additional_alive(2))
    then have kept: "react_commit renders (snd ?m) = snd ?m" "isMounted (snd ?m)"
      by (rule react_commit_mounted)+
    from rest kept(1)
    have "cycle_from_additional renders be now (snd ?m)
            = cycle_from_additional always_renders be now (snd ?m)"
      using cycle_from_additional_alive(1) [of renders be now "snd ?m"] by simp
    with Suspended kept show ?thesis
      by (simp add: cycle_from_market_def case_prod_beta phase_frames)
  qed
  from both show "cycle_from_market renders be now q s = cycle_from_market always_renders be now q s"
    and "isMounted s"
    by simp_all
qed

lemma cycle_from_basic_alive:
  assumes "isMounted (snd (cycle_from_basic renders be now s))"
  shows "cycle_from_basic renders be now s = cycle_from_basic always_renders be now s"
    and "isMounted s"
proof -
  let ?b = "fetchData_after_basic (getHealth be) (getAllStrategiesStatus be) (getWallet be) s"
  have both: "cycle_from_basic renders be now s = cycle_from_basic always_renders be now s
                \<and> isMounted s"
  proof (cases "fst ?b")
    case (Finished out)
    then have "cycle_from_basic renders be now s = (out, react_commit renders (snd ?b))"
      by (simp add: cycle_from_basic_def case_prod_beta)
    with assms have "isMounted (react_commit renders (snd ?b))"
      by simp
    then have "react_commit renders (snd ?b) = snd ?b" "isMounted (snd ?b)"
      by (rule react_commit_mounted)+
    with Finished show ?thesis
      by (simp add: cycle_from_basic_def case_prod_beta phase_frames)
  next
    case (Suspended t)
    then have "cycle_from_basic renders be now s
                 = cycle_from_market renders be now (requested_of t)
                     (react_commit renders (snd ?b))"
      by (simp add: cycle_from_basic_def case_prod_beta)
    with assms
    have rest: "isMounted (snd (cycle_from_market renders be now (requested_of t)
                                  (react_commit renders (snd ?b))))"
      by simp
    then have "isMounted (react_commit renders (snd ?b))"
      by (rule cycle_from_market_alive(2))
    then have kept: "react_commit renders (snd ?b) = snd ?b" "isMounted (snd ?b)"
      by (rule react_commit_mounted)+
    from rest kept(1)
    have "cycle_from_market renders be now (requested_of t) (snd ?b)
            = cycle_from_market always_renders be now (requested_of t) (snd ?b)"
      using cycle_from_market_alive(1) [of renders be now "requested_of t" "snd ?b"] by simp
    with Suspended kept show ?thesis
      by (simp add: cycle_from_basic_def case_prod_beta phase_frames)
  qed
  from both show "cycle_from_basic renders be now s = cycle_from_basic always_renders be now s"
    and "isMounted s"
    by simp_all
qed

lemma cycle_from_strategies_alive:
  assumes "isMounted (snd (cycle_from_strategies renders be now s))"
  shows "cycle_from_strategies renders be now s = cycle_from_strategies always_renders be now s"
    and "isMounted s"
proof -
  let ?a = "fetchData_after_strategies (getAvailableStrategies be) s"
  have both: "cycle_from_strategies renders be now s
                = cycle_from_strategies always_renders be now s \<and> isMounted s"
  proof (cases "fst ?a")
    case (Finished out)
    then have "cycle_from_strategies renders be now s = (out, react_commit renders (snd ?a))"
      by (simp add: cycle_from_strategies_def case_prod_beta)
    with assms have "isMounted (react_commit renders (snd ?a))"
      by simp
    then have "react_commit renders (snd ?a) = snd ?a" "isMounted (snd ?a)"
      by (rule react_commit_mounted)+
    with Finished show ?thesis
      by (simp add: cycle_from_strategies_def case_prod_beta phase_frames)
  next
    case (Suspended t)
    then have "cycle_from_strategies renders be now s
                 = cycle_from_basic renders be now (react_commit renders (snd ?a))"
      by (simp add: cycle_from_strategies_def case_prod_beta)
    with assms
    have rest: "isMounted (snd (cycle_from_basic renders be now (react_commit renders (snd ?a))))"
      by simp
    then have "isMounted (react_commit renders (snd ?a))"
      by (rule cycle_from_basic_alive(2))
    then have kept: "react_commit renders (snd ?a) = snd ?a" "isMounted (snd ?a)"
      by (rule react_commit_mounted)+
    from rest kept(1)
    have "cycle_from_basic renders be now (snd ?a)
            = cycle_from_basic always_renders be now (snd ?a)"
      using cycle_from_basic_alive(1) [of renders be now "snd ?a"] by simp
    with Suspended kept show ?thesis
      by (simp add: cycle_from_strategies_def case_prod_beta phase_frames)
  qed
  from both show "cycle_from_strategies renders be now s
                    = cycle_from_strategies always_renders be now s"
    and "isMounted s"
    by simp_all
qed

lemma sync_cycle_alive:
  assumes "isMounted (snd (sync_cycle renders be now s))"
  shows "sync_cycle renders be now s = sync_cycle always_renders be now s"
    and "isMounted s"
proof -
  have both: "sync_cycle renders be now s = sync_cycle always_renders be now s \<and> isMounted s"
  proof (cases "\<not> isMounted s \<or> fetchInProgress s")
    case True
    with assms show ?thesis
      by (simp add: sync_cycle_def fetchData_start_def)
  next
    case False
    let ?s1 = "snd (fetchData_start s)"
    from False have started: "fst (fetchData_start s) = Suspended FetchData_strategies"
      by (simp add: fetchData_start_def)
    then have "sync_cycle renders be now s
                 = cycle_from_strategies renders be now (react_commit renders ?s1)"
      by (simp add: sync_cycle_def case_prod_beta)
    with assms
    have rest: "isMounted (snd (cycle_from_strategies renders be now (react_commit renders ?s1)))"
      by simp
    then have "isMounted (react_commit renders ?s1)"
      by (rule cycle_from_strategies_alive(2))
    then have kept: "react_commit renders ?s1 = ?s1"
      by (rule react_commit_mounted)
    from rest kept
    have "cycle_from_strategies renders be now ?s1
            = cycle_from_strategies always_renders be now ?s1"
      using cycle_from_strategies_alive(1) [of renders be now ?s1] by simp
    with started kept False show ?thesis
      by (simp add: sync_cycle_def case_prod_beta)
  qed
  from both show "sync_cycle renders be now s = sync_cycle always_renders be now s"
    and "isMounted s"
    by simp_all
qed

section \<open>A whole cycle when every render returns\<close>

lemmas cycle_defs = sync_cycle_def cycle_from_strategies_def cycle_from_basic_def
  cycle_from_market_def cycle_from_additional_def

lemma always_strategy_list_fails:
  assumes "isMounted s" "\<not> fetchInProgress s" "strategy_list_fails be"
  shows "fst (sync_cycle always_renders be now s) = Caught ''Failed to load available strategies''"
    and "connectionStatus (vm (snd (sync_cycle always_renders be now s))) = ConnectionError"
    and "retryCount (vm (snd (sync_cycle always_renders be now s))) = retryCount (vm s) + 1"
    and "isMounted (snd (sync_cycle always_renders be now s))"
    and "timers (snd (sync_cycle always_renders be now s)) = timers s"
  using assms
  by (simp_all add: cycle_defs case_prod_beta fetchData_start_idle after_strategies_fails)

lemma always_health_check_fails:
  assumes "isMounted s" "\<not> fetchInProgress s" "\<not> strategy_list_fails be" "health_check_fails be"
  shows "fst (sync_cycle always_renders be now s)
           = Caught (''Health check failed: ''
                @ (case getHealth be of Rejected reason \<Rightarrow> reason | Fulfilled v \<Rightarrow> []))"
    and "connectionStatus (vm (snd (sync_cycle always_renders be now s))) = ConnectionError"
    and "retryCount (vm (snd (sync_cycle always_renders be now s))) = retryCount (vm s) + 1"
    and "isMounted (snd (sync_cycle always_renders be now s))"
    and "timers (snd (sync_cycle always_renders be now s)) = timers s"
  using assms
  by (simp_all add: cycle_defs case_prod_beta fetchData_start_idle after_strategies_loaded
      after_basic_fails)

lemma always_completes:
  assumes "isMounted s" "\<not> fetchInProgress s" "\<not> mandatory_call_fails be"
    and "getHealth be \<noteq> Fulfilled JNull"
  shows "fst (sync_cycle always_renders be now s) = Completed"
    and "connectionStatus (vm (snd (sync_cycle always_renders be now s))) = Connected"
    and "retryCount (vm (snd (sync_cycle always_renders be now s))) = 0"
    and "lastUpdate (vm (snd (sync_cycle always_renders be now s))) = Some now"
    and "strategies (vm (snd (sync_cycle always_renders be now s)))
           = (case getAllStrategiesStatus be of
                Fulfilled val \<Rightarrow> js_or val (JObj []) | Rejected e \<Rightarrow> JObj [])"
    and "marketData (vm (snd (sync_cycle always_renders be now s)))
           = foldl assign [] (map (market_result (getMarketData be) True) TRACKED_SYMBOLS)"
    and "wallet (vm (snd (sync_cycle always_renders be now s)))
           = (case getWallet be of
                Fulfilled val \<Rightarrow> js_or val (JArr []) | Rejected e \<Rightarrow> wallet (vm s))"
    and "error (vm (snd (sync_cycle always_renders be now s))) = None"
    and "isMounted (snd (sync_cycle always_renders be now s))"
    and "timers (snd (sync_cycle always_renders be now s)) = timers s"
  using assms
  by (simp_all add: mandatory_call_fails_def cycle_defs Let_def case_prod_beta
      fetchData_start_idle after_strategies_loaded after_basic_healthy after_market_mounted
      after_additional_mounted cong: settled.case_cong)

text \<open>
  A health payload \<^verbatim>\<open>null\<close> unmounts the component; the cycle returns at its look at
  \<^verbatim>\<open>isMounted\<close> after the market requests.
\<close>

lemma always_null_health:
  assumes "isMounted s" "\<not> fetchInProgress s" "\<not> strategy_list_fails be"
    and "getHealth be = Fulfilled JNull"
  shows "fst (sync_cycle always_renders be now s) = Returned_unmounted"
    and "\<not> isMounted (snd (sync_cycle always_renders be now s))"
proof -
  let ?s1 = "snd (fetchData_start s)"
  let ?s2 = "snd (fetchAvailableStrategies (getAvailableStrategies be) ?s1)"
  let ?b = "fetchData_after_basic (getHealth be) (getAllStrategiesStatus be) (getWallet be) ?s2"
  have s2: "isMounted ?s2"
    using assms(1,2) by (simp add: fetchData_start_idle)
  note parked = after_basic_null [OF s2 assms(4)]
  note returned = after_market_unmounted [OF parked(2)]
  have "sync_cycle always_renders be now s
          = (Returned_unmounted, snd (fetchData_after_market (getMarketData be) True (snd ?b)))"
    using assms(1,2,3) parked(1) returned(1)
    by (simp add: cycle_defs case_prod_beta fetchData_start_idle after_strategies_loaded)
  with returned(2) show "fst (sync_cycle always_renders be now s) = Returned_unmounted"
    and "\<not> isMounted (snd (sync_cycle always_renders be now s))"
    by simp_all
qed

section \<open>A whole cycle on a mounted, idle component that stays mounted\<close>

lemma sync_cycle_strategy_list_fails:
  assumes "isMounted s" "\<not> fetchInProgress s" "strategy_list_fails be"
    and "isMounted (snd (sync_cycle renders be now s))"
  shows "fst (sync_cycle renders be now s) = Caught ''Failed to load available strategies''"
    and "connectionStatus (vm (snd (sync_cycle renders be now s))) = ConnectionError"
    and "retryCount (vm (snd (sync_cycle renders be now s))) = retryCount (vm s) + 1"
    and "timers (snd (sync_cycle renders be now s)) = timers s"
  using always_strategy_list_fails [OF assms(1,2,3), of now] sync_cycle_alive(1) [OF assms(4)]
  by simp_all

lemma sync_cycle_health_check_fails:
  assumes "isMounted s" "\<not> fetchInProgress s" "\<not> strategy_list_fails be" "health_check_fails be"
    and "isMounted (snd (sync_cycle renders be now s))"
  shows "fst (sync_cycle renders be now s)
           = Caught (''Health check failed: ''
                @ (case getHealth be of Rejected reason \<Rightarrow> reason | Fulfilled v \<Rightarrow> []))"
    and "connectionStatus (vm (snd (sync_cycle renders be now s))) = ConnectionError"
    and "retryCount (vm (snd (sync_cycle renders be now s))) = retryCount (vm s) + 1"
    and "timers (snd (sync_cycle renders be now s)) = timers s"
  using always_health_check_fails [OF assms(1,2,3,4), of now] sync_cycle_alive(1) [OF assms(5)]
  by simp_all

lemma sync_cycle_health_payload:
  assumes "isMounted s" "\<not> fetchInProgress s" "\<not> strategy_list_fails be"
    and "isMounted (snd (sync_cycle renders be now s))"
  shows "getHealth be \<noteq> Fulfilled JNull"
  using always_null_health(2) [OF assms(1,2,3), of now] sync_cycle_alive(1) [OF assms(4)] assms(4)
  by auto

lemma sync_cycle_completes:
  assumes "isMounted s" "\<not> fetchInProgress s" "\<not> mandatory_call_fails be"
    and "isMounted (snd (sync_cycle renders be now s))"
  shows "fst (sync_cycle renders be now s) = Completed"
    and "connectionStatus (vm (snd (sync_cycle renders be now s))) = Connected"
    and "retryCount (vm (snd (sync_cycle renders be now s))) = 0"
    and "lastUpdate (vm (snd (sync_cycle renders be now s))) = Some now"
    and "strategies (vm (snd (sync_cycle renders be now s)))
           = (case getAllStrategiesStatus be of
                Fulfilled val \<Rightarrow> js_or val (JObj []) | Rejected e \<Rightarrow> JObj [])"
    and "marketData (vm (snd (sync_cycle renders be now s)))
           = foldl assign [] (map (market_result (getMarketData be) True) TRACKED_SYMBOLS)"
    and "wallet (vm (snd (sync_cycle renders be now s)))
           = (case getWallet be of
                Fulfilled val \<Rightarrow> js_or val (JArr []) | Rejected e \<Rightarrow> wallet (vm s))"
    and "error (vm (snd (sync_cycle renders be now s))) = None"
    and "timers (snd (sync_cycle renders be now s)) = timers s"
proof -
  have loaded: "\<not> strategy_list_fails be"
    using assms(3) by (simp add: mandatory_call_fails_def)
  have payload: "getHealth be \<noteq> Fulfilled JNull"
    using assms(1,2) loaded assms(4) by (rule sync_cycle_health_payload)
  note facts = always_completes [OF assms(1,2,3) payload, of now]
  note same = sync_cycle_alive(1) [OF assms(4)]
  show "fst (sync_cycle renders be now s) = Completed"
    and "connectionStatus (vm (snd (sync_cycle renders be now s))) = Connected"
    and "retryCount (vm (snd (sync_cycle renders be now s))) = 0"
    and "lastUpdate (vm (snd (sync_cycle renders be now s))) = Some now"
    and "strategies (vm (snd (sync_cycle renders be now s)))
           = (case getAllStrategiesStatus be of
                Fulfilled val \<Rightarrow> js_or val (JObj []) | Rejected e \<Rightarrow> JObj [])"
    and "marketData (vm (snd (sync_cycle renders be now s)))
           = foldl assign [] (map (market_result (getMarketData be) True) TRACKED_SYMBOLS)"
    and "wallet (vm (snd (sync_cycle renders be now s)))
           = (case getWallet be of
                Fulfilled val \<Rightarrow> js_or val (JArr []) | Rejected e \<Rightarrow> wallet (vm s))"
    and "error (vm (snd (sync_cycle renders be now s))) = None"
    and "timers (snd (sync_cycle renders be now s)) = timers s"
    using facts same by simp_all
qed

lemma sync_cycle_aborts:
  assumes "isMounted s" "\<not> fetchInProgress s" "mandatory_call_fails be"
    and "isMounted (snd (sync_cycle renders be now s))"
  shows "\<exists>msg. fst (sync_cycle renders be now s) = Caught msg"
    and "connectionStatus (vm (snd (sync_cycle renders be now s))) = ConnectionError"
    and "retryCount (vm (snd (sync_cycle renders be now s))) = retryCount (vm s) + 1"
    and "timers (snd (sync_cycle renders be now s)) = timers s"
  using assms sync_cycle_strategy_list_fails [of s be renders now]
    sync_cycle_health_check_fails [of s be renders now]
  by (auto simp: mandatory_call_fails_def)

lemma market_result_stored:
  "market_result (getMarketData be) True symbol
     = (symbol, stored_snapshot (be (''/market/'' @ symbol)))"
  by (simp add: market_result_def getMarketData_def stored_snapshot_def js_or_def
      split: settled.splits)

lemma newMarketData_entries:
  "foldl assign [] (map (market_result (getMarketData be) True) TRACKED_SYMBOLS)
     = map (\<lambda>symbol. (symbol, stored_snapshot (be (''/market/'' @ symbol)))) TRACKED_SYMBOLS"
  by (simp add: market_result_stored TRACKED_SYMBOLS_def assign_def)

text \<open>
  Claim C2. On a mounted, idle component that is still mounted when the cycle has
  returned, the sync cycle ends in its \<^verbatim>\<open>catch\<close> block exactly when one of the two
  mandatory calls fails, the strategy list or the health check, and it completes exactly
  when neither does, whatever the other requests do. A rejected strategy-list or health
  request is such a failure. In the abort case the connection status becomes the error
  status and the retry count grows by one. A component that a failed render has removed
  during the cycle, as a health payload \<^verbatim>\<open>null\<close> makes happen, is outside the statement:
  there the function returns early, as the teardown rule has it.
\<close>

theorem mandatory_calls_decide_abort:
  assumes "isMounted s" and "\<not> fetchInProgress s"
    and "isMounted (snd (sync_cycle renders be now s))"
  shows "((\<exists>msg. fst (sync_cycle renders be now s) = Caught msg) \<longleftrightarrow> mandatory_call_fails be)
       \<and> (fst (sync_cycle renders be now s) = Completed \<longleftrightarrow> \<not> mandatory_call_fails be)
       \<and> (mandatory_call_fails be \<longrightarrow>
             connectionStatus (vm (snd (sync_cycle renders be now s))) = ConnectionError
           \<and> retryCount (vm (snd (sync_cycle renders be now s))) = retryCount (vm s) + 1)
       \<and> (request_fails (be ''/strategies/available'') \<longrightarrow> mandatory_call_fails be)
       \<and> (request_fails (be ''/health'') \<longrightarrow> mandatory_call_fails be)"
proof -
  have aborted: "\<exists>msg. fst (sync_cycle renders be now s) = Caught msg"
    if "mandatory_call_fails be"
    using sync_cycle_aborts(1) [OF assms(1,2) that assms(3)] .
  have completed: "fst (sync_cycle renders be now s) = Completed" if "\<not> mandatory_call_fails be"
    using sync_cycle_completes(1) [OF assms(1,2) that assms(3)] .
  have iff1: "(\<exists>msg. fst (sync_cycle renders be now s) = Caught msg) \<longleftrightarrow> mandatory_call_fails be"
    using aborted completed by (cases "mandatory_call_fails be") auto
  have iff2: "fst (sync_cycle renders be now s) = Completed \<longleftrightarrow> \<not> mandatory_call_fails be"
    using aborted completed by (cases "mandatory_call_fails be") auto
  have effects: "mandatory_call_fails be \<longrightarrow>
             connectionStatus (vm (snd (sync_cycle renders be now s))) = ConnectionError
           \<and> retryCount (vm (snd (sync_cycle renders be now s))) = retryCount (vm s) + 1"
    using sync_cycle_aborts(2,3) [OF assms(1,2) _ assms(3)] by simp
  have list: "request_fails (be ''/strategies/available'') \<longrightarrow> mandatory_call_fails be"
    by (simp add: request_fails_def mandatory_call_fails_def strategy_list_fails_def
        getAvailableStrategies_def split: settled.splits)
  have health: "request_fails (be ''/health'') \<longrightarrow> mandatory_call_fails be"
    by (simp add: request_fails_def mandatory_call_fails_def health_check_fails_def
        getHealth_def split: settled.splits)
  from iff1 iff2 effects list health show ?thesis by blast
qed

section \<open>Sample runs\<close>

lemma initial_dashboard_idle:
  "isMounted initial_dashboard" "\<not> fetchInProgress initial_dashboard"
  "timers initial_dashboard = []" "retryCount (vm initial_dashboard) = 0"
  by (simp_all add: initial_dashboard_def initial_view_model_def)

lemma unreachable_backend_fails:
  "request_fails (unreachable_backend endpoint)"
  "mandatory_call_fails unreachable_backend"
  "strategy_list_fails unreachable_backend"
  by (simp_all add: unreachable_backend_def request_fails_def request_def
      mandatory_call_fails_def strategy_list_fails_def getAvailableStrategies_def)

lemma healthy_backend_mandatory:
  "getAvailableStrategies healthy_backend
     = Fulfilled (JObj [(''success'', JBool True),
                        (''result'', JObj [(''built_in'', JArr [JStr ''ema_strategy'']),
                                           (''discovered'', JArr []),
                                           (''current_directory'', JArr [])])])"
  "getHealth healthy_backend = Fulfilled (JObj [(''account_balance'', JNum 1000)])"
  by (simp_all add: healthy_backend_def getAvailableStrategies_def getHealth_def request_def
      response_ok_def)

lemma healthy_backend_succeeds: "\<not> mandatory_call_fails healthy_backend"
  by (simp add: mandatory_call_fails_def strategy_list_fails_def health_check_fails_def
      healthy_backend_mandatory valid_strategies_response_def truthy_opt_def allStrategies_def)

lemma healthy_backend_slices:
  "getAllStrategiesStatus healthy_backend
     = Fulfilled (JObj [(''BTCUSD'', JObj [(''running'', JBool True)])])"
  "getWallet healthy_backend = Fulfilled (JArr [JObj [(''asset'', JStr ''USD'')]])"
  by (simp_all add: healthy_backend_def getAllStrategiesStatus_def getWallet_def request_def
      response_ok_def)

lemma failing_at_other:
  "endpoint \<noteq> ''/strategies/available'' \<Longrightarrow> endpoint \<noteq> ''/health'' \<Longrightarrow>
     \<not> mandatory_call_fails be \<Longrightarrow> \<not> mandatory_call_fails (failing_at endpoint be)"
  by (simp add: mandatory_call_fails_def strategy_list_fails_def health_check_fails_def
      getAvailableStrategies_def getHealth_def failing_at_def)

lemma failing_at_health:
  "endpoint \<noteq> ''/health'' \<Longrightarrow> getHealth (failing_at endpoint be) = getHealth be"
  by (simp add: getHealth_def failing_at_def)

lemma failing_at_fails: "request_fails (failing_at endpoint be endpoint)"
  by (simp add: failing_at_def request_fails_def request_def)

text \<open>Cycles against the sample backends leave the component mounted.\<close>

lemma unreachable_cycle_mounted:
  assumes "isMounted s" "\<not> fetchInProgress s"
  shows "isMounted (snd (sync_cycle always_renders unreachable_backend now s))"
  using always_strategy_list_fails(4) [OF assms unreachable_backend_fails(3)] .

lemma healthy_cycle_mounted:
  assumes "isMounted s" "\<not> fetchInProgress s"
  shows "isMounted (snd (sync_cycle always_renders healthy_backend now s))"
  using always_completes(9) [OF assms healthy_backend_succeeds]
  by (simp add: healthy_backend_mandatory)

lemma degraded_cycle_mounted:
  assumes "isMounted s" "\<not> fetchInProgress s"
    and "endpoint \<noteq> ''/strategies/available''" "endpoint \<noteq> ''/health''"
  shows "isMounted (snd (sync_cycle always_renders (failing_at endpoint healthy_backend) now s))"
  using always_completes(9)
          [OF assms(1,2) failing_at_other [OF assms(3,4) healthy_backend_succeeds]]
  by (simp add: failing_at_health [OF assms(4)] healthy_backend_mandatory)

text \<open>
  A health endpoint that answers 200 with the body \<^verbatim>\<open>null\<close> passes the health check, and
  the cycle ends on an unmounted component: it returns where it looks at \<^verbatim>\<open>isMounted\<close>
  after the market requests.
\<close>

lemma null_health_cycle:
  "\<not> mandatory_call_fails null_health_backend"
  "fst (sync_cycle always_renders null_health_backend 0 initial_dashboard) = Returned_unmounted"
  "\<not> isMounted (snd (sync_cycle always_renders null_health_backend 0 initial_dashboard))"
proof -
  have health: "getHealth null_health_backend = Fulfilled JNull"
    by (simp add: null_health_backend_def getHealth_def request_def response_ok_def)
  have "getAvailableStrategies null_health_backend = getAvailableStrategies healthy_backend"
    by (simp add: null_health_backend_def getAvailableStrategies_def)
  then have loaded: "\<not> strategy_list_fails null_health_backend"
    using healthy_backend_succeeds
    by (simp add: mandatory_call_fails_def strategy_list_fails_def)
  from loaded health show "\<not> mandatory_call_fails null_health_backend"
    by (simp add: mandatory_call_fails_def health_check_fails_def)
  from always_null_health [OF initial_dashboard_idle(1,2) loaded health]
  show "fst (sync_cycle always_renders null_health_backend 0 initial_dashboard)
          = Returned_unmounted"
    and "\<not> isMounted (snd (sync_cycle always_renders null_health_backend 0 initial_dashboard))"
    by simp_all
qed

lemma synced_dashboard_idle:
  "isMounted synced_dashboard" "\<not> fetchInProgress synced_dashboard"
  "strategies (vm synced_dashboard) = JObj [(''BTCUSD'', JObj [(''running'', JBool True)])]"
  "wallet (vm synced_dashboard) = JArr [JObj [(''asset'', JStr ''USD'')]]"
  using always_completes(5,7,9) [OF initial_dashboard_idle(1,2) healthy_backend_succeeds, of 1000]
    sync_cycle_idle [OF initial_dashboard_idle(2), of always_renders healthy_backend 1000]
  by (simp_all add: synced_dashboard_def healthy_backend_slices healthy_backend_mandatory
      js_or_def)

theorem mandatory_calls_decide_abort_witness:
  "isMounted initial_dashboard \<and> \<not> fetchInProgress initial_dashboard
 \<and> isMounted (snd (sync_cycle always_renders unreachable_backend 0 initial_dashboard))
 \<and> mandatory_call_fails unreachable_backend
 \<and> fst (sync_cycle always_renders unreachable_backend 0 initial_dashboard)
      = Caught ''Failed to load available strategies''
 \<and> connectionStatus (vm (snd (sync_cycle always_renders unreachable_backend 0 initial_dashboard)))
      = ConnectionError
 \<and> retryCount (vm (snd (sync_cycle always_renders unreachable_backend 0 initial_dashboard))) = 1
 \<and> isMounted (snd (sync_cycle always_renders (failing_at ''/wallet'' healthy_backend) 0
                      initial_dashboard))
 \<and> request_fails (failing_at ''/wallet'' healthy_backend ''/wallet'')
 \<and> \<not> mandatory_call_fails (failing_at ''/wallet'' healthy_backend)
 \<and> fst (sync_cycle always_renders (failing_at ''/wallet'' healthy_backend) 0 initial_dashboard)
      = Completed"
proof -
  have down: "isMounted (snd (sync_cycle always_renders unreachable_backend 0 initial_dashboard))"
    using initial_dashboard_idle(1,2) by (rule unreachable_cycle_mounted)
  have degraded: "isMounted (snd (sync_cycle always_renders (failing_at ''/wallet'' healthy_backend)
                                    0 initial_dashboard))"
    using initial_dashboard_idle(1,2) by (rule degraded_cycle_mounted) simp_all
  from mandatory_calls_decide_abort [OF initial_dashboard_idle(1,2) down]
    mandatory_calls_decide_abort [OF initial_dashboard_idle(1,2) degraded]
    down degraded initial_dashboard_idle unreachable_backend_fails failing_at_fails
    failing_at_other [OF _ _ healthy_backend_succeeds, of "''/wallet''"]
    always_strategy_list_fails(1) [OF initial_dashboard_idle(1,2) unreachable_backend_fails(3), of 0]
  show ?thesis by simp
qed

section \<open>Market data of a cycle\<close>

text \<open>
  Claim C4. In a sync cycle of a mounted component whose mandatory calls succeed and
  which is still mounted when the cycle has returned, the entry stored for each tracked
  symbol depends on that symbol's request alone: an empty snapshot when the request
  fails, the fetched data otherwise. The market data holds exactly the tracked symbols,
  the cycle completes, and the connection status ends as connected.
\<close>

theorem market_failures_stay_local:
  assumes "isMounted s" and "\<not> fetchInProgress s" and "\<not> mandatory_call_fails be"
    and "isMounted (snd (sync_cycle renders be now s))"
  shows "fst (sync_cycle renders be now s) = Completed
       \<and> connectionStatus (vm (snd (sync_cycle renders be now s))) = Connected
       \<and> map fst (marketData (vm (snd (sync_cycle renders be now s)))) = TRACKED_SYMBOLS
       \<and> (\<forall>symbol \<in> set TRACKED_SYMBOLS.
             map_of (marketData (vm (snd (sync_cycle renders be now s)))) symbol
               = Some (stored_snapshot (be (''/market/'' @ symbol))))
       \<and> (\<forall>symbol \<in> set TRACKED_SYMBOLS.
             request_fails (be (''/market/'' @ symbol)) \<longrightarrow>
             map_of (marketData (vm (snd (sync_cycle renders be now s)))) symbol = Some (JObj []))
       \<and> (\<forall>symbol \<in> set TRACKED_SYMBOLS. \<forall>data.
             request (be (''/market/'' @ symbol)) = Fulfilled data \<and> truthy data \<longrightarrow>
             map_of (marketData (vm (snd (sync_cycle renders be now s)))) symbol = Some data)"
proof -
  let ?s' = "snd (sync_cycle renders be now s)"
  have market: "marketData (vm ?s')
      = map (\<lambda>symbol. (symbol, stored_snapshot (be (''/market/'' @ symbol)))) TRACKED_SYMBOLS"
    using sync_cycle_completes(6) [OF assms] by (simp add: newMarketData_entries)
  have keys: "map fst (marketData (vm ?s')) = TRACKED_SYMBOLS"
    by (simp add: market comp_def)
  have entry: "map_of (marketData (vm ?s')) symbol
                 = Some (stored_snapshot (be (''/market/'' @ symbol)))"
    if "symbol \<in> set TRACKED_SYMBOLS" for symbol
    using that by (simp add: market map_of_map_restrict)
  have failed: "stored_snapshot (be (''/market/'' @ symbol)) = JObj []"
    if "request_fails (be (''/market/'' @ symbol))" for symbol
    using that by (simp add: stored_snapshot_def request_fails_def split: settled.splits)
  have stored: "stored_snapshot (be (''/market/'' @ symbol)) = data"
    if "request (be (''/market/'' @ symbol)) = Fulfilled data" "truthy data" for symbol data
    using that by (simp add: stored_snapshot_def js_or_def)
  show ?thesis
    using sync_cycle_completes(1,2) [OF assms] keys entry failed stored by simp
qed

theorem market_failures_stay_local_witness:
  "isMounted initial_dashboard \<and> \<not> fetchInProgress initial_dashboard
 \<and> \<not> mandatory_call_fails (failing_at ''/market/ETHUSD'' healthy_backend)
 \<and> isMounted (snd (sync_cycle always_renders (failing_at ''/market/ETHUSD'' healthy_backend) 0
                      initial_dashboard))
 \<and> ''ETHUSD'' \<in> set TRACKED_SYMBOLS \<and> ''BTCUSD'' \<in> set TRACKED_SYMBOLS
 \<and> request_fails (failing_at ''/market/ETHUSD'' healthy_backend (''/market/'' @ ''ETHUSD''))
 \<and> request (failing_at ''/market/ETHUSD'' healthy_backend (''/market/'' @ ''BTCUSD''))
      = Fulfilled (JObj [(''mark_price'', JNum 50000)])
 \<and> truthy (JObj [(''mark_price'', JNum 50000)])
 \<and> fst (sync_cycle always_renders (failing_at ''/market/ETHUSD'' healthy_backend) 0
           initial_dashboard) = Completed
 \<and> connectionStatus
      (vm (snd (sync_cycle always_renders (failing_at ''/market/ETHUSD'' healthy_backend) 0
                  initial_dashboard)))
      = Connected
 \<and> map_of (marketData
      (vm (snd (sync_cycle always_renders (failing_at ''/market/ETHUSD'' healthy_backend) 0
                  initial_dashboard))))
      ''ETHUSD'' = Some (JObj [])
 \<and> map_of (marketData
      (vm (snd (sync_cycle always_renders (failing_at ''/market/ETHUSD'' healthy_backend) 0
                  initial_dashboard))))
      ''BTCUSD'' = Some (JObj [(''mark_price'', JNum 50000)])"
proof -
  let ?cycle = "sync_cycle always_renders (failing_at ''/market/ETHUSD'' healthy_backend) 0
                  initial_dashboard"
  have ok: "\<not> mandatory_call_fails (failing_at ''/market/ETHUSD'' healthy_backend)"
    by (rule failing_at_other [OF _ _ healthy_backend_succeeds]) simp_all
  have alive: "isMounted (snd ?cycle)"
    using initial_dashboard_idle(1,2) by (rule degraded_cycle_mounted) simp_all
  have eth: "request_fails (failing_at ''/market/ETHUSD'' healthy_backend (''/market/'' @ ''ETHUSD''))"
    using failing_at_fails [of "''/market/ETHUSD''" healthy_backend] by simp
  have btc: "request (failing_at ''/market/ETHUSD'' healthy_backend (''/market/'' @ ''BTCUSD''))
      = Fulfilled (JObj [(''mark_price'', JNum 50000)])"
    by (simp add: failing_at_def healthy_backend_def request_def response_ok_def)
  have tracked: "''ETHUSD'' \<in> set TRACKED_SYMBOLS" "''BTCUSD'' \<in> set TRACKED_SYMBOLS"
    by (simp_all add: TRACKED_SYMBOLS_def)
  note cycle = market_failures_stay_local [OF initial_dashboard_idle(1,2) ok alive]
  have completed: "fst ?cycle = Completed"
    and connected: "connectionStatus (vm (snd ?cycle)) = Connected"
    using cycle by blast+
  have empty: "map_of (marketData (vm (snd ?cycle))) ''ETHUSD'' = Some (JObj [])"
    using cycle tracked(1) eth by blast
  have "truthy (JObj [(''mark_price'', JNum 50000)])"
    by simp
  with cycle tracked(2) btc
  have stored: "map_of (marketData (vm (snd ?cycle))) ''BTCUSD''
                  = Some (JObj [(''mark_price'', JNum 50000)])"
    by blast
  from completed connected empty stored ok alive eth btc tracked initial_dashboard_idle(1,2)
  show ?thesis by simp
qed

section \<open>Status and wallet failures\<close>

text \<open>
  Claim C3, as stated, fails: the dashboard has strategy statuses and a wallet from a
  first, successful cycle, the status request (or the wallet request) fails, the cycle completes
  on the mounted component, and the slice does not keep its previous value: the strategy
  statuses are the empty object and the wallet is the fallback object of \<^verbatim>\<open>getWallet\<close>.
\<close>

theorem stale_slices_counterexample:
  "isMounted synced_dashboard \<and> \<not> fetchInProgress synced_dashboard
 \<and> request_fails (failing_at ''/strategies/status'' healthy_backend ''/strategies/status'')
 \<and> fst (sync_cycle always_renders (failing_at ''/strategies/status'' healthy_backend) 2000
           synced_dashboard)
      = Completed
 \<and> isMounted (snd (sync_cycle always_renders (failing_at ''/strategies/status'' healthy_backend)
                      2000 synced_dashboard))
 \<and> strategies (vm synced_dashboard) = JObj [(''BTCUSD'', JObj [(''running'', JBool True)])]
 \<and> strategies
      (vm (snd (sync_cycle always_renders (failing_at ''/strategies/status'' healthy_backend) 2000
                  synced_dashboard)))
      = JObj []
 \<and> strategies
      (vm (snd (sync_cycle always_renders (failing_at ''/strategies/status'' healthy_backend) 2000
                  synced_dashboard)))
      \<noteq> strategies (vm synced_dashboard)
 \<and> request_fails (failing_at ''/wallet'' healthy_backend ''/wallet'')
 \<and> isMounted (snd (sync_cycle always_renders (failing_at ''/wallet'' healthy_backend) 2000
                      synced_dashboard))
 \<and> wallet (vm synced_dashboard) = JArr [JObj [(''asset'', JStr ''USD'')]]
 \<and> wallet (vm (snd (sync_cycle always_renders (failing_at ''/wallet'' healthy_backend) 2000
                       synced_dashboard)))
      = JObj []
 \<and> wallet (vm (snd (sync_cycle always_renders (failing_at ''/wallet'' healthy_backend) 2000
                       synced_dashboard)))
      \<noteq> wallet (vm synced_dashboard)"
proof -
  have ok1: "\<not> mandatory_call_fails (failing_at ''/strategies/status'' healthy_backend)"
    by (rule failing_at_other [OF _ _ healthy_backend_succeeds]) simp_all
  have ok2: "\<not> mandatory_call_fails (failing_at ''/wallet'' healthy_backend)"
    by (rule failing_at_other [OF _ _ healthy_backend_succeeds]) simp_all
  have alive1: "isMounted (snd (sync_cycle always_renders
                   (failing_at ''/strategies/status'' healthy_backend) 2000 synced_dashboard))"
    using synced_dashboard_idle(1,2) by (rule degraded_cycle_mounted) simp_all
  have alive2: "isMounted (snd (sync_cycle always_renders
                   (failing_at ''/wallet'' healthy_backend) 2000 synced_dashboard))"
    using synced_dashboard_idle(1,2) by (rule degraded_cycle_mounted) simp_all
  have status: "getAllStrategiesStatus (failing_at ''/strategies/status'' healthy_backend)
                  = Fulfilled (JObj [])"
    by (simp add: getAllStrategiesStatus_def failing_at_def request_def)
  have wal: "getWallet (failing_at ''/wallet'' healthy_backend) = Fulfilled (JObj [])"
    by (simp add: getWallet_def failing_at_def request_def)
  show ?thesis
    using sync_cycle_completes(1,5) [OF synced_dashboard_idle(1,2) ok1 alive1]
      sync_cycle_completes(7) [OF synced_dashboard_idle(1,2) ok2 alive2]
      alive1 alive2 synced_dashboard_idle failing_at_fails status wal
    by (simp add: js_or_def)
qed

text \<open>
  Claim C3, amended. In a sync cycle of a mounted, idle component whose mandatory calls
  succeed and which is still mounted when the cycle has returned, a failing all-strategy
  status request leaves the strategy statuses empty, whatever they were before; and
  neither a failing status request nor a failing wallet request aborts the cycle: it
  completes, the connection status ends as connected and no error is shown.
\<close>

theorem status_failure_empties_strategies:
  assumes "isMounted s" and "\<not> fetchInProgress s" and "\<not> mandatory_call_fails be"
    and "isMounted (snd (sync_cycle renders be now s))"
  shows "(request_fails (be ''/strategies/status'') \<longrightarrow>
            strategies (vm (snd (sync_cycle renders be now s))) = JObj [])
       \<and> (request_fails (be ''/strategies/status'') \<or> request_fails (be ''/wallet'') \<longrightarrow>
            fst (sync_cycle renders be now s) = Completed
          \<and> connectionStatus (vm (snd (sync_cycle renders be now s))) = Connected
          \<and> error (vm (snd (sync_cycle renders be now s))) = None)"
proof -
  have "getAllStrategiesStatus be = Fulfilled (JObj [])"
    if "request_fails (be ''/strategies/status'')"
    using that by (simp add: getAllStrategiesStatus_def request_fails_def split: settled.splits)
  then have "strategies (vm (snd (sync_cycle renders be now s))) = JObj []"
    if "request_fails (be ''/strategies/status'')"
    using that sync_cycle_completes(5) [OF assms] by (simp add: js_or_def)
  then show ?thesis
    using sync_cycle_completes(1,2,8) [OF assms] by simp
qed

theorem status_failure_empties_strategies_witness:
  "isMounted synced_dashboard \<and> \<not> fetchInProgress synced_dashboard
 \<and> \<not> mandatory_call_fails (failing_at ''/strategies/status'' healthy_backend)
 \<and> isMounted (snd (sync_cycle always_renders (failing_at ''/strategies/status'' healthy_backend)
                      2000 synced_dashboard))
 \<and> request_fails (failing_at ''/strategies/status'' healthy_backend ''/strategies/status'')
 \<and> strategies
      (vm (snd (sync_cycle always_renders (failing_at ''/strategies/status'' healthy_backend) 2000
                  synced_dashboard)))
      = JObj []
 \<and> fst (sync_cycle always_renders (failing_at ''/strategies/status'' healthy_backend) 2000
           synced_dashboard)
      = Completed
 \<and> connectionStatus
      (vm (snd (sync_cycle always_renders (failing_at ''/strategies/status'' healthy_backend) 2000
                  synced_dashboard)))
      = Connected
 \<and> error
      (vm (snd (sync_cycle always_renders (failing_at ''/strategies/status'' healthy_backend) 2000
                  synced_dashboard)))
      = None"
proof -
  have ok: "\<not> mandatory_call_fails (failing_at ''/strategies/status'' healthy_backend)"
    by (rule failing_at_other [OF _ _ healthy_backend_succeeds]) simp_all
  have alive: "isMounted (snd (sync_cycle always_renders
                  (failing_at ''/strategies/status'' healthy_backend) 2000 synced_dashboard))"
    using synced_dashboard_idle(1,2) by (rule degraded_cycle_mounted) simp_all
  from status_failure_empties_strategies [OF synced_dashboard_idle(1,2) ok alive]
    ok alive failing_at_fails [of "''/strategies/status''" healthy_backend]
    synced_dashboard_idle(1,2)
  show ?thesis by simp
qed

section \<open>Retry backoff\<close>

lemma handleRetry_frame [simp]:
  "vm (handleRetry s) = vm s"
  "timers (handleRetry s) = timers s @ [(retry_delay (retryCount (vm s)), FetchData_if_mounted)]"
  by (simp_all add: handleRetry_def)













section \<open>Strategy control\<close>

text \<open>
  Claim C9. When the start request (and likewise the stop request) is answered with a
  truthy \<^verbatim>\<open>success\<close> while the component is mounted, one timeout of 1000 ms whose
  callback calls \<^verbatim>\<open>fetchData\<close> is scheduled and the answer is returned. When the answer
  has no truthy \<^verbatim>\<open>success\<close>, the answer itself, with its message, is returned to the
  panel (or the no-response object for an empty answer); when the request is rejected,
  \<^verbatim>\<open>{success: false, message}\<close> with the error's message is returned. In both failure
  cases the dashboard is unchanged: no timeout, no request, no retry.
\<close>

theorem strategy_control_refresh:
  assumes "isMounted s"
  shows "(truthy result \<and> truthy_opt (get_prop result ''success'') \<longrightarrow>
            fst (handleStartStrategy (Fulfilled result) s) = result
          \<and> timers (snd (handleStartStrategy (Fulfilled result) s))
              = timers s @ [(1000, FetchData_if_mounted)]
          \<and> inflight (snd (handleStartStrategy (Fulfilled result) s)) = inflight s
          \<and> fst (handleStopStrategy (Fulfilled result) s) = result
          \<and> timers (snd (handleStopStrategy (Fulfilled result) s))
              = timers s @ [(1000, FetchData_if_mounted)]
          \<and> inflight (snd (handleStopStrategy (Fulfilled result) s)) = inflight s)
       \<and> (\<not> (truthy result \<and> truthy_opt (get_prop result ''success'')) \<longrightarrow>
            handleStartStrategy (Fulfilled result) s = (js_or result no_response, s)
          \<and> handleStopStrategy (Fulfilled result) s = (js_or result no_response, s))
       \<and> (truthy result \<longrightarrow> js_or result no_response = result)
       \<and> handleStartStrategy (Rejected msg) s = (failure_result msg, s)
       \<and> handleStopStrategy (Rejected msg) s = (failure_result msg, s)
       \<and> get_prop (failure_result msg) ''message'' = Some (JStr msg)
       \<and> \<not> truthy_opt (get_prop (failure_result msg) ''success'')
       \<and> run_callback FetchData_if_mounted s = call_fetchData s"
  using assms
  by (simp add: handleStartStrategy_def handleStopStrategy_def js_or_def failure_result_def
      truthy_opt_def run_callback_def)

theorem strategy_control_refresh_witness:
  "isMounted initial_dashboard
 \<and> truthy started \<and> truthy_opt (get_prop started ''success'')
 \<and> timers (snd (handleStartStrategy (Fulfilled started) initial_dashboard))
      = [(1000, FetchData_if_mounted)]
 \<and> timers (snd (handleStopStrategy (Fulfilled started) initial_dashboard))
      = [(1000, FetchData_if_mounted)]
 \<and> \<not> (truthy refused \<and> truthy_opt (get_prop refused ''success''))
 \<and> handleStartStrategy (Fulfilled refused) initial_dashboard = (refused, initial_dashboard)
 \<and> handleStopStrategy (Fulfilled refused) initial_dashboard = (refused, initial_dashboard)
 \<and> handleStartStrategy (Rejected ''Failed to fetch'') initial_dashboard
      = (failure_result ''Failed to fetch'', initial_dashboard)"
proof -
  have yes: "truthy started" "truthy_opt (get_prop started ''success'')"
    by (simp_all add: started_def truthy_opt_def)
  have no: "truthy refused" "\<not> truthy_opt (get_prop refused ''success'')"
    by (simp_all add: refused_def truthy_opt_def)
  from strategy_control_refresh [OF initial_dashboard_idle(1), of started "''Failed to fetch''"]
    strategy_control_refresh [OF initial_dashboard_idle(1), of refused "''Failed to fetch''"]
    yes no initial_dashboard_idle(1,3)
  show ?thesis by simp
qed

section \<open>Alert identifiers\<close>

lemma dec_nonempty: "dec n \<noteq> []"
  by (subst dec.simps) simp

lemma digit_char_inj:
  assumes "a < 10" and "b < 10" and "digit_char a = digit_char b"
  shows "a = b"
proof -
  have digits: "[0..<10] = [0, 1, 2, 3, 4, 5, 6, 7, 8, 9 :: nat]"
    by (simp add: upt_rec)
  have "a \<in> set [0..<10]" and "b \<in> set [0..<10]"
    using assms(1,2) by simp_all
  with assms(3) show ?thesis
    unfolding digits by (auto simp: digit_char_def)
qed

lemma dec_inj: "dec m = dec n \<Longrightarrow> m = n"
proof (induction m arbitrary: n rule: dec.induct)
  case (1 m)
  show ?case
  proof (cases "m < 10")
    case small_m: True
    show ?thesis
    proof (cases "n < 10")
      case True
      with small_m "1.prems" show ?thesis
        by (simp add: dec.simps [of m] dec.simps [of n] digit_char_inj)
    next
      case False
      with small_m "1.prems" dec_nonempty [of "n div 10"] show ?thesis
        by (simp add: dec.simps [of m] dec.simps [of n])
    qed
  next
    case big_m: False
    show ?thesis
    proof (cases "n < 10")
      case True
      with big_m "1.prems" dec_nonempty [of "m div 10"] show ?thesis
        by (simp add: dec.simps [of m] dec.simps [of n])
    next
      case False
      with big_m "1.prems"
      have eq: "dec (m div 10) = dec (n div 10)" "digit_char (m mod 10) = digit_char (n mod 10)"
        by (simp_all add: dec.simps [of m] dec.simps [of n])
      have "m div 10 = n div 10"
        using "1.IH" [OF big_m eq(1)] .
      moreover have "m mod 10 = n mod 10"
        using eq(2) by (intro digit_char_inj) simp_all
      ultimately show ?thesis
        by (metis div_mult_mod_eq)
    qed
  qed
qed

text \<open>The last character of an identifier tells which rule produced it.\<close>

lemma rule_suffixes_differ:
  fixes x y :: string
  shows "x @ ''-error'' \<noteq> y @ ''-longtime''" and "x @ ''-profit'' \<noteq> y @ ''-loss''"
proof -
  have "last (x @ ''-error'') \<noteq> last (y @ ''-longtime'')"
    by simp
  then show "x @ ''-error'' \<noteq> y @ ''-longtime''"
    by metis
  have "last (x @ ''-profit'') \<noteq> last (y @ ''-loss'')"
    by simp
  then show "x @ ''-profit'' \<noteq> y @ ''-loss''"
    by metis
qed

lemma strategy_alert_ids:
  assumes "a \<in> set (strategy_alerts t (symb, st))"
  shows "alert_id a = symb @ ''-error'' \<or> alert_id a = symb @ ''-longtime''"
  using assms
  by (auto simp: strategy_alerts_def Let_def split: if_splits option.splits)

lemma strategy_alerts_distinct: "distinct (map alert_id (strategy_alerts t entry))"
  by (cases entry) (auto simp: strategy_alerts_def Let_def rule_suffixes_differ split: option.splits)

lemma position_alert_ids:
  assumes "a \<in> set (position_alerts t (index, pos))"
  shows "alert_id a = ''pos-'' @ dec index @ ''-profit''
       \<or> alert_id a = ''pos-'' @ dec index @ ''-loss''"
proof -
  have "position_alerts t (index, pos) = []
      \<or> (\<exists>a'. position_alerts t (index, pos) = [a']
            \<and> alert_id a' = ''pos-'' @ dec index @ ''-profit'')
      \<or> (\<exists>a'. position_alerts t (index, pos) = [a']
            \<and> alert_id a' = ''pos-'' @ dec index @ ''-loss'')"
    by (simp add: position_alerts_def Let_def split: option.splits)
  with assms show ?thesis by auto
qed

lemma position_alerts_distinct: "distinct (map alert_id (position_alerts t entry))"
  by (cases entry) (auto simp: position_alerts_def Let_def split: option.splits)

lemma strategy_ids_distinct:
  assumes "distinct (map fst strats)"
  shows "distinct (map alert_id (concat (map (strategy_alerts t) strats)))"
  using assms
proof (induction strats)
  case Nil
  then show ?case by simp
next
  case (Cons entry strats)
  obtain symb st where entry: "entry = (symb, st)"
    by (cases entry)
  have fresh: "symb \<notin> fst ` set strats"
    using Cons.prems entry by simp
  have "alert_id a \<noteq> alert_id b"
    if a: "a \<in> set (strategy_alerts t (symb, st))"
      and b: "b \<in> set (concat (map (strategy_alerts t) strats))" for a b
  proof -
    from b obtain symb' st' where other: "(symb', st') \<in> set strats"
      "b \<in> set (strategy_alerts t (symb', st'))"
      by auto
    then have "symb' \<noteq> symb"
      using fresh by force
    then show ?thesis
      using strategy_alert_ids [OF a] strategy_alert_ids [OF other(2)]
        rule_suffixes_differ(1) [of symb symb'] rule_suffixes_differ(1) [of symb' symb]
      by auto
  qed
  then show ?case
    using Cons.IH Cons.prems entry strategy_alerts_distinct [of t "(symb, st)"] by auto
qed

lemma position_ids_distinct:
  "distinct (map alert_id (concat (map (position_alerts t) (enumerate n positions))))"
proof (induction positions arbitrary: n)
  case Nil
  then show ?case by simp
next
  case (Cons pos positions)
  have "alert_id a \<noteq> alert_id b"
    if a: "a \<in> set (position_alerts t (n, pos))"
      and b: "b \<in> set (concat (map (position_alerts t) (enumerate (Suc n) positions)))" for a b
  proof -
    from b obtain j pos' where other: "(j, pos') \<in> set (enumerate (Suc n) positions)"
      "b \<in> set (position_alerts t (j, pos'))"
      by auto
    then have "j \<noteq> n"
      by (auto simp: in_set_enumerate_eq)
    then have digits: "dec j \<noteq> dec n"
      using dec_inj by blast
    from position_alert_ids [OF a] position_alert_ids [OF other(2)] digits
      rule_suffixes_differ(2) [of "dec n" "dec j"] rule_suffixes_differ(2) [of "dec j" "dec n"]
    show ?thesis by auto
  qed
  then show ?case
    using Cons.IH [of "Suc n"] position_alerts_distinct [of t "(n, pos)"] by auto
qed

lemma newAlerts_distinct:
  assumes "distinct (map fst strats)"
  shows "distinct (map alert_id (newAlerts t strats positions))"
proof -
  have "alert_id a \<noteq> alert_id b"
    if a: "a \<in> set (concat (map (strategy_alerts t) strats))"
      and b: "b \<in> set (concat (map (position_alerts t) (enumerate 0 positions)))" for a b
  proof -
    from a obtain symb st where sa: "a \<in> set (strategy_alerts t (symb, st))"
      by auto
    from b obtain j pos where pb: "b \<in> set (position_alerts t (j, pos))"
      by auto
    have "last (alert_id a) = CHR ''r'' \<or> last (alert_id a) = CHR ''e''"
      using strategy_alert_ids [OF sa] by auto
    moreover have "last (alert_id b) = CHR ''t'' \<or> last (alert_id b) = CHR ''s''"
      using position_alert_ids [OF pb] by auto
    ultimately show ?thesis by auto
  qed
  then show ?thesis
    using strategy_ids_distinct [OF assms, of t] position_ids_distinct [of t 0 positions]
    by (auto simp: newAlerts_def)
qed

section \<open>Merging alerts\<close>

lemma sort_newest_first_ids:
  "distinct (map alert_id (sort_newest_first xs)) = distinct (map alert_id xs)"
  by (simp add: sort_newest_first_def distinct_map)

lemma newest_first_sort: "newest_first (sort_newest_first xs)"
proof -
  have "sorted (map (\<lambda>a. - timestamp a) (sort_newest_first xs))"
    by (simp add: sort_newest_first_def)
  then show ?thesis
    by (simp add: newest_first_def sorted_wrt_map)
qed

lemma merge_alerts_set:
  "set (merge_alerts t new prev)
     = {a \<in> set prev \<union> {b \<in> set new. alert_id b \<notin> alert_id ` set prev}.
          timestamp a > t - 24 * 60 * 60 * 1000}"
  by (auto simp: merge_alerts_def Let_def sort_newest_first_def)

lemma merge_alerts_distinct:
  assumes "distinct (map alert_id prev)" and "distinct (map alert_id new)"
  shows "distinct (map alert_id (merge_alerts t new prev))"
proof -
  let ?unique = "filter (\<lambda>a. \<not> List.member (map alert_id prev) (alert_id a)) new"
  have "distinct (map alert_id ?unique)"
    using assms(2) by (rule distinct_map_filter)
  moreover have "i \<notin> set (map alert_id prev)" if "i \<in> set (map alert_id ?unique)" for i
  proof -
    from that obtain b where "b \<in> set new" "alert_id b \<notin> set (map alert_id prev)"
      "i = alert_id b"
      by auto
    then show ?thesis by simp
  qed
  then have "set (map alert_id prev) \<inter> set (map alert_id ?unique) = {}"
    by blast
  ultimately have "distinct (map alert_id (prev @ ?unique))"
    using assms(1) by simp
  then have "distinct (map alert_id (filter (\<lambda>a. timestamp a > t - 24 * 60 * 60 * 1000)
                                        (prev @ ?unique)))"
    by (rule distinct_map_filter)
  then show ?thesis
    by (simp add: merge_alerts_def Let_def sort_newest_first_ids)
qed

lemma panel_step_distinct:
  assumes "distinct (map alert_id alerts)" and "wellformed_event e"
  shows "distinct (map alert_id (panel_step e alerts))"
proof (cases e)
  case (Props_change t strats positions)
  with assms show ?thesis
    by (simp add: derive_alerts_def merge_alerts_distinct newAlerts_distinct)
next
  case (Dismiss alertId)
  with assms(1) show ?thesis
    by (simp add: dismissAlert_def distinct_map_filter)
next
  case Clear_all
  then show ?thesis
    by (simp add: clearAllAlerts_def)
qed

lemma panel_run_distinct:
  assumes "distinct (map alert_id alerts)" and "\<forall>e \<in> set evs. wellformed_event e"
  shows "distinct (map alert_id (panel_run evs alerts))"
  using assms
  by (induction evs arbitrary: alerts) (simp_all add: panel_step_distinct)

text \<open>
  Claim C8. After any history of the panel (props changes, dismissals, clearing), the
  list left by a merge is sorted by timestamp, newest first, holds no two alerts with
  the same id, and holds no alert whose timestamp is 24 hours or more before the time of
  the merge. Deriving once more from the same strategies and positions again leaves a
  list with these properties, and every alert of that list was either in the list
  before or has an id that no alert of the list before had: no duplicate is added.
\<close>

theorem alert_list_invariants:
  assumes "\<forall>e \<in> set history. wellformed_event e" and "distinct (map fst strats)"
  shows "newest_first (panel_step (Props_change t strats positions) (panel_run history []))
       \<and> distinct (map alert_id
            (panel_step (Props_change t strats positions) (panel_run history [])))
       \<and> (\<forall>a \<in> set (panel_step (Props_change t strats positions) (panel_run history [])).
             timestamp a > t - 24 * 60 * 60 * 1000)
       \<and> newest_first
            (panel_step (Props_change t' strats positions)
               (panel_step (Props_change t strats positions) (panel_run history [])))
       \<and> distinct (map alert_id
            (panel_step (Props_change t' strats positions)
               (panel_step (Props_change t strats positions) (panel_run history []))))
       \<and> (\<forall>a \<in> set (panel_step (Props_change t' strats positions)
                      (panel_step (Props_change t strats positions) (panel_run history []))).
             timestamp a > t' - 24 * 60 * 60 * 1000
           \<and> (a \<in> set (panel_step (Props_change t strats positions) (panel_run history []))
              \<or> alert_id a \<notin> alert_id `
                   set (panel_step (Props_change t strats positions) (panel_run history []))))"
proof -
  let ?before = "panel_run history []"
  let ?once = "panel_step (Props_change t strats positions) ?before"
  let ?twice = "panel_step (Props_change t' strats positions) ?once"
  have before: "distinct (map alert_id ?before)"
    using assms(1) by (simp add: panel_run_distinct)
  have wf: "wellformed_event (Props_change t strats positions)"
    "wellformed_event (Props_change t' strats positions)"
    using assms(2) by simp_all
  have once: "distinct (map alert_id ?once)"
    using before wf(1) by (rule panel_step_distinct)
  have twice: "distinct (map alert_id ?twice)"
    using once wf(2) by (rule panel_step_distinct)
  have sorted1: "newest_first ?once" and sorted2: "newest_first ?twice"
    by (simp_all add: derive_alerts_def merge_alerts_def Let_def newest_first_sort)
  have recent1: "\<forall>a \<in> set ?once. timestamp a > t - 24 * 60 * 60 * 1000"
    by (simp add: derive_alerts_def merge_alerts_set)
  have recent2: "\<forall>a \<in> set ?twice. timestamp a > t' - 24 * 60 * 60 * 1000
           \<and> (a \<in> set ?once \<or> alert_id a \<notin> alert_id ` set ?once)"
    by (auto simp: derive_alerts_def merge_alerts_set)
  from sorted1 once recent1 sorted2 twice recent2 show ?thesis
    by blast
qed

lemma profit_alert:
  "newAlerts t [] [profitable_position]
     = [\<lparr>alert_id = ''pos-0-profit'', alert_kind = AlertSuccess, alert_symbol = ''BTCUSD'',
         title = ''High Profit Position'', message = PositionUp 60, timestamp = t,
         priority = Medium\<rparr>]"
  by (simp add: newAlerts_def position_alerts_def profitable_position_def Let_def dec.simps
      digit_char_def)

theorem alert_list_invariants_witness:
  "wellformed_event (Props_change 0 [] [profitable_position])
 \<and> distinct (map fst ([] :: (string \<times> strategy) list))
 \<and> map alert_id (panel_run [Props_change 0 [] [profitable_position]] []) = [''pos-0-profit'']
 \<and> map alert_id
      (panel_step (Props_change 1000 [] [profitable_position])
         (panel_run [Props_change 0 [] [profitable_position]] []))
      = [''pos-0-profit'']
 \<and> map alert_kind
      (panel_step (Props_change 1000 [] [profitable_position])
         (panel_run [Props_change 0 [] [profitable_position]] []))
      = [AlertSuccess]
 \<and> map priority
      (panel_step (Props_change 1000 [] [profitable_position])
         (panel_run [Props_change 0 [] [profitable_position]] []))
      = [Medium]
 \<and> newest_first
      (panel_step (Props_change 1000 [] [profitable_position])
         (panel_run [Props_change 0 [] [profitable_position]] []))
 \<and> distinct (map alert_id
      (panel_step (Props_change 2000 [] [profitable_position])
         (panel_step (Props_change 1000 [] [profitable_position])
            (panel_run [Props_change 0 [] [profitable_position]] []))))"
proof -
  have wf: "\<forall>e \<in> set [Props_change 0 [] [profitable_position]]. wellformed_event e"
    by simp
  have keys: "distinct (map fst ([] :: (string \<times> strategy) list))"
    by simp
  have first: "panel_run [Props_change 0 [] [profitable_position]] []
     = [\<lparr>alert_id = ''pos-0-profit'', alert_kind = AlertSuccess, alert_symbol = ''BTCUSD'',
         title = ''High Profit Position'', message = PositionUp 60, timestamp = 0,
         priority = Medium\<rparr>]"
    by (simp add: derive_alerts_def merge_alerts_def profit_alert sort_newest_first_def)
  have second: "panel_step (Props_change 1000 [] [profitable_position])
         (panel_run [Props_change 0 [] [profitable_position]] [])
     = [\<lparr>alert_id = ''pos-0-profit'', alert_kind = AlertSuccess, alert_symbol = ''BTCUSD'',
         title = ''High Profit Position'', message = PositionUp 60, timestamp = 0,
         priority = Medium\<rparr>]"
    by (simp add: first derive_alerts_def merge_alerts_def profit_alert sort_newest_first_def)
  from alert_list_invariants [OF wf keys, of 1000 "[profitable_position]" 2000]
  have "newest_first
      (panel_step (Props_change 1000 [] [profitable_position])
         (panel_run [Props_change 0 [] [profitable_position]] []))"
    and "distinct (map alert_id
      (panel_step (Props_change 2000 [] [profitable_position])
         (panel_step (Props_change 1000 [] [profitable_position])
            (panel_run [Props_change 0 [] [profitable_position]] []))))"
    by blast+
  then show ?thesis
    using first second by simp
qed

section \<open>At most one sync cycle\<close>

lemma filter_list_update:
  assumes "i < length xs" and "P (xs ! i) = P y"
  shows "length (filter P (xs[i := y])) = length (filter P xs)"
  using assms
proof (induction xs arbitrary: i)
  case Nil
  then show ?case by simp
next
  case (Cons x xs)
  then show ?case by (cases i) auto
qed

lemma filter_remove_nth:
  assumes "i < length xs"
  shows "length (filter P (remove_nth i xs))
           = length (filter P xs) - (if P (xs ! i) then 1 else 0)"
proof -
  have "xs = take i xs @ xs ! i # drop (Suc i) xs"
    using assms by (rule id_take_nth_drop)
  then have "filter P xs = filter P (take i xs) @ filter P [xs ! i] @ filter P (drop (Suc i) xs)"
    by (metis append_Cons append_Nil filter_append)
  then show ?thesis
    by (simp add: remove_nth_def)
qed

lemma phases_ok:
  "phase_ok s (fetchData_after_strategies r s)"
  "phase_ok s (fetchData_after_basic h st w s)"
  "phase_ok s (fetchData_after_market m q s)"
  "phase_ok s (fetchData_after_additional now s)"
  by (simp_all add: phase_ok_def phase_frames)
     (simp_all add: fetchData_after_strategies_def fetchData_after_basic_def
      fetchData_after_market_def fetchData_after_additional_def case_prod_beta Let_def
      set_balance_def split: settled.splits json.splits)

lemma settle_cycle:
  assumes "single_cycle s" and "i < length (inflight s)" and "is_cycle (inflight s ! i)"
    and "phase_ok s ps"
  shows "single_cycle (settle i ps)"
proof (cases "fst ps")
  case (Suspended t)
  then have "settle i ps = (snd ps)\<lparr>inflight := (inflight (snd ps))[i := t]\<rparr>"
    by (simp add: settle_def case_prod_beta)
  moreover have "is_cycle t" "inflight (snd ps) = inflight s"
    "isMounted (snd ps) \<longrightarrow> isMounted s \<and> fetchInProgress (snd ps) = fetchInProgress s"
    using assms(4) Suspended by (simp_all add: phase_ok_def)
  ultimately show ?thesis
    using assms(1,2,3) by (auto simp: single_cycle_def active_cycles_def filter_list_update)
next
  case (Finished out)
  then have "settle i ps = (snd ps)\<lparr>inflight := remove_nth i (inflight (snd ps))\<rparr>"
    by (simp add: settle_def case_prod_beta)
  moreover have "inflight (snd ps) = inflight s"
    using assms(4) by (simp add: phase_ok_def)
  ultimately show ?thesis
    using assms(1,2,3) by (simp add: single_cycle_def active_cycles_def filter_remove_nth)
qed

lemma settle_other:
  assumes "single_cycle s" and "i < length (inflight s)" and "\<not> is_cycle (inflight s ! i)"
    and "isMounted s' = isMounted s" and "fetchInProgress s' = fetchInProgress s"
    and "inflight s' = inflight s"
  shows "single_cycle (settle i (Finished out, s'))"
  using assms
  by (simp add: settle_def single_cycle_def active_cycles_def filter_remove_nth)

lemma light_frames [simp]:
  "isMounted (fetchStrategiesStatus r s) = isMounted s"
  "fetchInProgress (fetchStrategiesStatus r s) = fetchInProgress s"
  "inflight (fetchStrategiesStatus r s) = inflight s"
  "isMounted (fetchMarketData m s) = isMounted s"
  "fetchInProgress (fetchMarketData m s) = fetchInProgress s"
  "inflight (fetchMarketData m s) = inflight s"
  "isMounted (snd (handleStartStrategy r s)) = isMounted s"
  "fetchInProgress (snd (handleStartStrategy r s)) = fetchInProgress s"
  "inflight (snd (handleStartStrategy r s)) = inflight s"
  "isMounted (snd (handleStopStrategy r s)) = isMounted s"
  "fetchInProgress (snd (handleStopStrategy r s)) = fetchInProgress s"
  "inflight (snd (handleStopStrategy r s)) = inflight s"
  by (simp_all add: fetchStrategiesStatus_def fetchMarketData_def handleStartStrategy_def
      handleStopStrategy_def Let_def split: settled.splits)

lemma resume_single_cycle:
  assumes "single_cycle s"
  shows "single_cycle (resume i be now s)"
proof (cases "i < length (inflight s)")
  case False
  with assms show ?thesis by (simp add: resume_def)
next
  case True
  show ?thesis
  proof (cases "inflight s ! i")
    case FetchData_strategies
    with assms True show ?thesis
      by (simp add: resume_def settle_cycle phases_ok)
  next
    case FetchData_basic
    with assms True show ?thesis
      by (simp add: resume_def settle_cycle phases_ok)
  next
    case (FetchData_market requested)
    with assms True show ?thesis
      by (simp add: resume_def settle_cycle phases_ok)
  next
    case (FetchData_additional p t h)
    with assms True show ?thesis
      by (simp add: resume_def)
  next
    case FetchStrategiesStatus
    with assms True show ?thesis
      by (simp add: resume_def settle_other)
  next
    case FetchMarketData
    with assms True show ?thesis
      by (simp add: resume_def settle_other)
  next
    case HandleStartStrategy
    with assms True show ?thesis
      by (simp add: resume_def settle_other)
  next
    case HandleStopStrategy
    with assms True show ?thesis
      by (simp add: resume_def settle_other)
  qed
qed

lemma join_single_cycle:
  assumes "single_cycle s" and "i < length (inflight s)" and "is_cycle (inflight s ! i)"
  shows "single_cycle (join i p t h now s)"
proof (cases "p \<or> t \<or> h")
  case True
  with assms show ?thesis
    by (simp add: join_def single_cycle_def active_cycles_def filter_list_update)
next
  case False
  with assms show ?thesis
    by (simp add: join_def settle_cycle phases_ok)
qed

lemma wave_single_cycle:
  assumes "single_cycle s"
  shows "single_cycle (fetchPositionData r s)"
    and "single_cycle (fetchTradeData a b s)"
    and "single_cycle (fetchSystemHealth h s)"
  using assms by (simp_all add: single_cycle_def active_cycles_def)

lemma resume_sub_single_cycle:
  assumes "single_cycle s"
  shows "single_cycle (resume_sub i sub be now s)"
proof (cases "i < length (inflight s)")
  case False
  with assms show ?thesis by (simp add: resume_sub_def)
next
  case True
  show ?thesis
  proof (cases "inflight s ! i")
    case (FetchData_additional p t h)
    with assms True show ?thesis
      by (cases sub) (simp_all add: resume_sub_def join_single_cycle wave_single_cycle)
  qed (use assms True in \<open>simp_all add: resume_sub_def\<close>)
qed

lemma call_fetchData_single_cycle:
  assumes "single_cycle s"
  shows "single_cycle (call_fetchData s)"
  using assms
  by (simp add: call_fetchData_def fetchData_start_def single_cycle_def active_cycles_def)

lemma call_fetchData_busy:
  assumes "single_cycle s" and "0 < active_cycles s"
  shows "call_fetchData s = s"
  using assms
  by (auto simp: call_fetchData_def fetchData_start_def single_cycle_def)

lemma socket_frames [simp]:
  "isMounted (connectWebSocket symbol s) = isMounted s"
  "fetchInProgress (connectWebSocket symbol s) = fetchInProgress s"
  "inflight (connectWebSocket symbol s) = inflight s"
  "isMounted (close_current s) = isMounted s"
  "fetchInProgress (close_current s) = fetchInProgress s"
  "inflight (close_current s) = inflight s"
  "isMounted (ws_onmessage symbol payload s) = isMounted s"
  "fetchInProgress (ws_onmessage symbol payload s) = fetchInProgress s"
  "inflight (ws_onmessage symbol payload s) = inflight s"
  "isMounted (ws_onclose symbol s) = isMounted s"
  "fetchInProgress (ws_onclose symbol s) = fetchInProgress s"
  "inflight (ws_onclose symbol s) = inflight s"
  "isMounted (handleRetry s) = isMounted s"
  "fetchInProgress (handleRetry s) = fetchInProgress s"
  "inflight (handleRetry s) = inflight s"
  by (simp_all add: connectWebSocket_def close_current_def close_socket_def ws_onmessage_def
      ws_onclose_def handleRetry_def split: option.splits)

lemma single_cycle_cong:
  assumes "single_cycle s" and "isMounted s' = isMounted s"
    and "fetchInProgress s' = fetchInProgress s" and "inflight s' = inflight s"
  shows "single_cycle s'"
  using assms by (simp add: single_cycle_def active_cycles_def)

lemma single_cycle_other_task:
  assumes "single_cycle s" and "\<forall>t \<in> set ts. \<not> is_cycle t"
  shows "single_cycle (s\<lparr>inflight := inflight s @ ts\<rparr>)"
  using assms by (simp add: single_cycle_def active_cycles_def)

lemma unmount_single_cycle:
  assumes "single_cycle s"
  shows "single_cycle (unmount s)"
  using assms by (simp add: unmount_def single_cycle_def active_cycles_def)

lemma step_single_cycle:
  assumes "single_cycle s"
  shows "single_cycle (step e s)"
proof (cases e)
  case Call_fetchData
  with assms show ?thesis by (simp add: call_fetchData_single_cycle)
next
  case Click_refresh
  have "single_cycle (safeSetState (\<lambda>v. v\<lparr>loading := True\<rparr>) s)"
    using assms by (rule single_cycle_cong) simp_all
  with assms Click_refresh show ?thesis by (simp add: call_fetchData_single_cycle)
next
  case Click_retry
  have "single_cycle (handleRetry s)"
    using assms by (rule single_cycle_cong) simp_all
  with assms Click_retry show ?thesis by simp
next
  case (Click_symbol symbol)
  have "single_cycle (select_symbol symbol s)"
    using assms by (rule single_cycle_cong) (simp_all add: select_symbol_def)
  with Click_symbol show ?thesis by simp
next
  case Click_start
  with assms show ?thesis by (simp add: single_cycle_other_task)
next
  case Click_stop
  with assms show ?thesis by (simp add: single_cycle_other_task)
next
  case (Timeout i)
  have popped: "single_cycle (s\<lparr>timers := remove_nth i (timers s)\<rparr>)"
    using assms by (rule single_cycle_cong) simp_all
  have "single_cycle (run_callback cb (s\<lparr>timers := remove_nth i (timers s)\<rparr>))" for cb
  proof (cases cb)
    case FetchData_if_mounted
    with popped show ?thesis by (simp add: run_callback_def call_fetchData_single_cycle)
  next
    case (ConnectWebSocket symbol)
    have "single_cycle (connectWebSocket symbol (s\<lparr>timers := remove_nth i (timers s)\<rparr>))"
      using popped by (rule single_cycle_cong) simp_all
    with ConnectWebSocket show ?thesis by (simp add: run_callback_def)
  qed
  with assms Timeout show ?thesis by simp
next
  case Interval_market
  with assms show ?thesis by (simp add: single_cycle_other_task)
next
  case Interval_status
  with assms show ?thesis by (simp add: single_cycle_other_task)
next
  case (Resume i be now)
  with assms show ?thesis by (simp add: resume_single_cycle)
next
  case (Resume_sub i sub be now)
  with assms show ?thesis by (simp add: resume_sub_single_cycle)
next
  case (Ws_open i)
  have "single_cycle (step (Ws_open i) s)"
    using assms by (rule single_cycle_cong) simp_all
  with Ws_open show ?thesis by simp
next
  case (Ws_message i payload)
  have "single_cycle (step (Ws_message i payload) s)"
    using assms by (rule single_cycle_cong) simp_all
  with Ws_message show ?thesis by simp
next
  case (Ws_error i)
  with assms show ?thesis by simp
next
  case (Ws_close i)
  have "single_cycle (step (Ws_close i) s)"
    using assms by (rule single_cycle_cong) simp_all
  with Ws_close show ?thesis by simp
next
  case Unmount
  with assms show ?thesis by (simp add: unmount_single_cycle)
qed

lemma run_single_cycle:
  assumes "single_cycle s"
  shows "single_cycle (run evs s)"
  using assms by (induction evs arbitrary: s) (simp_all add: step_single_cycle)

lemma mounted_dashboard_single_cycle: "single_cycle mounted_dashboard"
  by (simp add: mounted_dashboard_def single_cycle_def active_cycles_def call_fetchData_def
      fetchData_start_def initial_dashboard_def)

text \<open>Only the end of a cycle lowers the number of active cycles, and it clears the flag.\<close>

lemma filter_list_update_mono:
  assumes "P y"
  shows "length (filter P xs) \<le> length (filter P (xs[i := y]))"
  using assms
proof (induction xs arbitrary: i)
  case Nil
  then show ?case by simp
next
  case (Cons x xs)
  then show ?case by (cases i) (auto simp: le_SucI)
qed

lemma settle_progress:
  assumes "phase_ok s ps"
  shows "active_cycles s \<le> active_cycles (settle i ps) \<or> \<not> fetchInProgress (settle i ps)"
proof (cases "fst ps")
  case (Suspended t)
  with assms show ?thesis
    by (simp add: settle_def case_prod_beta phase_ok_def active_cycles_def
        filter_list_update_mono)
next
  case (Finished out)
  with assms show ?thesis
    by (simp add: settle_def case_prod_beta phase_ok_def)
qed

lemma settle_other_progress:
  assumes "i < length (inflight s)" and "\<not> is_cycle (inflight s ! i)"
    and "inflight s' = inflight s"
  shows "active_cycles s \<le> active_cycles (settle i (Finished out, s'))"
  using assms by (simp add: settle_def active_cycles_def filter_remove_nth)

lemma resume_progress:
  "active_cycles s \<le> active_cycles (resume i be now s)
     \<or> \<not> fetchInProgress (resume i be now s)"
proof (cases "i < length (inflight s)")
  case False
  then show ?thesis by (simp add: resume_def)
next
  case True
  then show ?thesis
    by (cases "inflight s ! i")
       (simp_all add: resume_def settle_progress phases_ok settle_other_progress)
qed

lemma join_progress:
  "active_cycles s \<le> active_cycles (join i p t h now s)
     \<or> \<not> fetchInProgress (join i p t h now s)"
  using settle_progress [where s = s and ps = "fetchData_after_additional now s" and i = i]
    phases_ok(4) [of s now]
  by (simp add: join_def active_cycles_def filter_list_update_mono)

lemma wave_active_cycles [simp]:
  "active_cycles (fetchPositionData r s) = active_cycles s"
  "active_cycles (fetchTradeData a b s) = active_cycles s"
  "active_cycles (fetchSystemHealth h s) = active_cycles s"
  by (simp_all add: active_cycles_def)

lemma resume_sub_progress:
  "active_cycles s \<le> active_cycles (resume_sub i sub be now s)
     \<or> \<not> fetchInProgress (resume_sub i sub be now s)"
proof (cases "i < length (inflight s)")
  case False
  then show ?thesis by (simp add: resume_sub_def)
next
  case True
  show ?thesis
  proof (cases "inflight s ! i")
    case (FetchData_additional p t h)
    show ?thesis
    proof (cases sub)
      case Positions
      with True FetchData_additional
        join_progress [where s = "fetchPositionData (getPositions be) s" and i = i and p = False
          and t = t and h = h and now = now]
      show ?thesis by (simp add: resume_sub_def)
    next
      case Trades
      with True FetchData_additional
        join_progress [where s = "fetchTradeData (getTrades be) (getTradeStats be) s" and i = i
          and p = p and t = False and h = h and now = now]
      show ?thesis by (simp add: resume_sub_def)
    next
      case SystemHealth
      with True FetchData_additional
        join_progress [where s = "fetchSystemHealth (getSystemHealth be) s" and i = i and p = p
          and t = t and h = False and now = now]
      show ?thesis by (simp add: resume_sub_def)
    qed
  qed (use True in \<open>simp_all add: resume_sub_def\<close>)
qed

lemma step_progress:
  "active_cycles s \<le> active_cycles (step e s) \<or> \<not> fetchInProgress (step e s)"
proof (cases e)
  case (Resume i be now)
  then show ?thesis by (simp add: resume_progress)
next
  case (Resume_sub i sub be now)
  then show ?thesis by (simp add: resume_sub_progress)
next
  case (Timeout i)
  have "active_cycles s' \<le> active_cycles (run_callback cb s')" for cb s'
    by (cases cb)
       (simp_all add: run_callback_def call_fetchData_def fetchData_start_def active_cycles_def)
  from this [where s' = "s\<lparr>timers := remove_nth i (timers s)\<rparr>"] Timeout show ?thesis
    by (simp add: active_cycles_def)
next
  case Unmount
  then show ?thesis by (simp add: unmount_def)
qed (simp_all add: active_cycles_def call_fetchData_def fetchData_start_def select_symbol_def)

text \<open>
  Claim C1. In every state the mounted dashboard can reach, at most one call of
  \<^verbatim>\<open>fetchData\<close> is past the guard. A call while one is active, and any call while the
  flag is set, returns at once and changes nothing: no state write, no timer, no queued
  request. Whenever an event ends a cycle, through the \<^verbatim>\<open>catch\<close> block, an early return
  or the last statement, the flag is clear afterwards; a whole cycle on an idle mounted
  component leaves the flag clear whatever the backend answers.
\<close>

theorem at_most_one_cycle:
  "active_cycles (run evs mounted_dashboard) \<le> 1
 \<and> (0 < active_cycles (run evs mounted_dashboard) \<longrightarrow>
       step Call_fetchData (run evs mounted_dashboard) = run evs mounted_dashboard)
 \<and> (fetchInProgress s \<longrightarrow> step Call_fetchData s = s)
 \<and> (active_cycles (step e (run evs mounted_dashboard)) < active_cycles (run evs mounted_dashboard)
       \<longrightarrow> \<not> fetchInProgress (step e (run evs mounted_dashboard)))
 \<and> (isMounted s \<and> \<not> fetchInProgress s \<longrightarrow>
       \<not> fetchInProgress (snd (sync_cycle renders be now s)))"
proof -
  have inv: "single_cycle (run evs mounted_dashboard)"
    using mounted_dashboard_single_cycle by (rule run_single_cycle)
  then have one: "active_cycles (run evs mounted_dashboard) \<le> 1"
    by (simp add: single_cycle_def)
  have busy: "0 < active_cycles (run evs mounted_dashboard) \<longrightarrow>
       step Call_fetchData (run evs mounted_dashboard) = run evs mounted_dashboard"
    using inv by (simp add: call_fetchData_busy)
  have guard: "fetchInProgress s \<longrightarrow> step Call_fetchData s = s"
    by (simp add: call_fetchData_def fetchData_start_def)
  have cleared: "active_cycles (step e (run evs mounted_dashboard))
                   < active_cycles (run evs mounted_dashboard)
       \<longrightarrow> \<not> fetchInProgress (step e (run evs mounted_dashboard))"
    using step_progress [of "run evs mounted_dashboard" e] by auto
  have whole: "isMounted s \<and> \<not> fetchInProgress s \<longrightarrow>
                 \<not> fetchInProgress (snd (sync_cycle renders be now s))"
    by (simp add: sync_cycle_idle)
  from one busy guard cleared whole show ?thesis
    by blast
qed

lemma mounted_dashboard_state:
  "inflight mounted_dashboard = [FetchData_strategies]"
  "isMounted mounted_dashboard" "fetchInProgress mounted_dashboard"
  by (simp_all add: mounted_dashboard_def call_fetchData_def fetchData_start_def
      initial_dashboard_def connectWebSocket_def)

theorem at_most_one_cycle_witness:
  "active_cycles (run [] mounted_dashboard) = 1
 \<and> step Call_fetchData (run [] mounted_dashboard) = run [] mounted_dashboard
 \<and> fetchInProgress mounted_dashboard
 \<and> step Call_fetchData mounted_dashboard = mounted_dashboard
 \<and> active_cycles (step (Resume 0 unreachable_backend 0) (run [] mounted_dashboard)) = 0
 \<and> \<not> fetchInProgress (step (Resume 0 unreachable_backend 0) (run [] mounted_dashboard))
 \<and> isMounted initial_dashboard \<and> \<not> fetchInProgress initial_dashboard
 \<and> \<not> fetchInProgress (snd (sync_cycle always_renders healthy_backend 0 initial_dashboard))"
proof -
  have active: "active_cycles (run [] mounted_dashboard) = 1"
    by (simp add: active_cycles_def mounted_dashboard_state)
  have "fst (fetchData_after_strategies (getAvailableStrategies unreachable_backend)
               mounted_dashboard) = Finished (Caught ''Failed to load available strategies'')"
    using after_strategies_fails(1) [of mounted_dashboard unreachable_backend]
      unreachable_backend_fails(2) mounted_dashboard_state(2)
    by (simp add: mandatory_call_fails_def health_check_fails_def getHealth_def
        strategy_list_fails_def getAvailableStrategies_def unreachable_backend_def request_def)
  then have ended: "active_cycles (step (Resume 0 unreachable_backend 0) (run [] mounted_dashboard)) = 0"
    by (simp add: resume_def mounted_dashboard_state settle_def case_prod_beta active_cycles_def
        remove_nth_def phase_frames)
  from at_most_one_cycle [of "[]" mounted_dashboard "Resume 0 unreachable_backend 0"
         always_renders healthy_backend 0]
    at_most_one_cycle [of "[]" initial_dashboard "Resume 0 unreachable_backend 0"
         always_renders healthy_backend 0]
    active ended mounted_dashboard_state(3) initial_dashboard_idle(1,2)
  show ?thesis by simp
qed

section \<open>A cycle as a sequence of events\<close>

text \<open>No function of the cycle reads the list of suspended functions.\<close>

lemma inflight_commute [simp]:
  "safeSetState f (s\<lparr>inflight := ts\<rparr>) = (safeSetState f s)\<lparr>inflight := ts\<rparr>"
  "fetchData_catch msg (s\<lparr>inflight := ts\<rparr>) = (fetchData_catch msg s)\<lparr>inflight := ts\<rparr>"
  "fetchData_finally (s\<lparr>inflight := ts\<rparr>) = (fetchData_finally s)\<lparr>inflight := ts\<rparr>"
  "fetchPositionData p (s\<lparr>inflight := ts\<rparr>) = (fetchPositionData p s)\<lparr>inflight := ts\<rparr>"
  "fetchTradeData a b (s\<lparr>inflight := ts\<rparr>) = (fetchTradeData a b s)\<lparr>inflight := ts\<rparr>"
  "fetchSystemHealth h (s\<lparr>inflight := ts\<rparr>) = (fetchSystemHealth h s)\<lparr>inflight := ts\<rparr>"
  by (simp_all add: safeSetState_def fetchData_catch_def fetchData_finally_def
      fetchPositionData_def fetchTradeData_def fetchSystemHealth_def split: settled.splits)

lemma close_socket_commute:
  "close_socket i (s\<lparr>inflight := ts\<rparr>) = (close_socket i s)\<lparr>inflight := ts\<rparr>"
  "close_socket i (s\<lparr>isMounted := b\<rparr>) = (close_socket i s)\<lparr>isMounted := b\<rparr>"
  by (auto simp: close_socket_def)

lemma close_current_commute:
  "close_current (s\<lparr>inflight := ts\<rparr>) = (close_current s)\<lparr>inflight := ts\<rparr>"
  "close_current (s\<lparr>isMounted := b\<rparr>) = (close_current s)\<lparr>isMounted := b\<rparr>"
  by (simp_all add: close_current_def close_socket_commute split: option.splits)

lemma unmount_commute [simp]:
  "unmount (s\<lparr>inflight := ts\<rparr>) = (unmount s)\<lparr>inflight := ts\<rparr>"
  by (simp add: unmount_def close_current_commute)

lemma phases_commute [simp]:
  "fst (fetchAvailableStrategies r (s\<lparr>inflight := ts\<rparr>)) = fst (fetchAvailableStrategies r s)"
  "snd (fetchAvailableStrategies r (s\<lparr>inflight := ts\<rparr>))
     = (snd (fetchAvailableStrategies r s))\<lparr>inflight := ts\<rparr>"
  "fst (fetchData_after_basic h st w (s\<lparr>inflight := ts\<rparr>)) = fst (fetchData_after_basic h st w s)"
  "snd (fetchData_after_basic h st w (s\<lparr>inflight := ts\<rparr>))
     = (snd (fetchData_after_basic h st w s))\<lparr>inflight := ts\<rparr>"
  "fst (fetchData_after_market m q (s\<lparr>inflight := ts\<rparr>)) = fst (fetchData_after_market m q s)"
  "snd (fetchData_after_market m q (s\<lparr>inflight := ts\<rparr>))
     = (snd (fetchData_after_market m q s))\<lparr>inflight := ts\<rparr>"
  "fst (fetchData_after_additional now (s\<lparr>inflight := ts\<rparr>)) = fst (fetchData_after_additional now s)"
  "snd (fetchData_after_additional now (s\<lparr>inflight := ts\<rparr>))
     = (snd (fetchData_after_additional now s))\<lparr>inflight := ts\<rparr>"
  by (simp_all add: fetchAvailableStrategies_def fetchData_after_basic_def Let_def
      fetchData_after_market_def fetchData_after_additional_def
      split: settled.splits option.splits)

lemma after_strategies_commute [simp]:
  "fst (fetchData_after_strategies r (s\<lparr>inflight := ts\<rparr>)) = fst (fetchData_after_strategies r s)"
  "snd (fetchData_after_strategies r (s\<lparr>inflight := ts\<rparr>))
     = (snd (fetchData_after_strategies r s))\<lparr>inflight := ts\<rparr>"
  by (simp_all add: fetchData_after_strategies_def case_prod_beta)

lemma settle_parked:
  "settle 0 (ps :: progress \<times> dashboard)
     = (case fst ps of
          Suspended t \<Rightarrow> (snd ps)\<lparr>inflight := (inflight (snd ps))[0 := t]\<rparr>
        | Finished out \<Rightarrow> (snd ps)\<lparr>inflight := remove_nth 0 (inflight (snd ps))\<rparr>)"
  by (cases ps) (simp add: settle_def split: progress.splits)

lemma nothing_to_resume:
  assumes "inflight s = []"
  shows "resume i be now s = s" and "resume_sub i sub be now s = s"
  using assms by (simp_all add: resume_def resume_sub_def)

text \<open>
  The cycle of \<open>sync_cycle\<close> is the run of these events from a dashboard with no
  suspended function: the call, the three resumptions of \<^verbatim>\<open>fetchData\<close>, and the three
  functions of the second wave. When every render returns, this holds for every backend.
\<close>

lemma always_cycle_as_events:
  assumes "inflight s = []"
  shows "run [Call_fetchData, Resume 0 be now, Resume 0 be now, Resume 0 be now,
              Resume_sub 0 Positions be now, Resume_sub 0 Trades be now,
              Resume_sub 0 SystemHealth be now] s
           = snd (sync_cycle always_renders be now s)"
proof (cases "\<not> isMounted s \<or> fetchInProgress s")
  case True
  with assms show ?thesis
    by (simp add: sync_cycle_def call_fetchData_def fetchData_start_def resume_def resume_sub_def)
next
  case False
  then have idle: "isMounted s" "\<not> fetchInProgress s"
    by simp_all
  let ?s1 = "snd (fetchData_start s)"
  have s1: "fst (fetchData_start s) = Suspended FetchData_strategies"
    "isMounted ?s1" "inflight ?s1 = []"
    using idle assms by (simp_all add: fetchData_start_def)
  have called: "step Call_fetchData s = ?s1\<lparr>inflight := [FetchData_strategies]\<rparr>"
    using s1 by (simp add: call_fetchData_def case_prod_beta)
  show ?thesis
  proof (cases "strategy_list_fails be")
    case True
    let ?s2 = "snd (fetchData_after_strategies (getAvailableStrategies be) ?s1)"
    have s2: "fst (fetchData_after_strategies (getAvailableStrategies be) ?s1)
                = Finished (Caught ''Failed to load available strategies'')"
      "inflight ?s2 = []"
      using after_strategies_fails(1) [OF s1(2) True] s1(3) by (simp_all add: phase_frames)
    have "step (Resume 0 be now) (?s1\<lparr>inflight := [FetchData_strategies]\<rparr>) = ?s2"
      using s2 by (simp add: resume_def settle_parked remove_nth_def)
    moreover note nothing_to_resume [OF s2(2)]
    moreover have "snd (sync_cycle always_renders be now s) = ?s2"
      using s1(1) s2(1) by (simp add: cycle_defs case_prod_beta)
    ultimately show ?thesis
      using called by simp
  next
    case loaded: False
    let ?s2 = "snd (fetchAvailableStrategies (getAvailableStrategies be) ?s1)"
    have s2: "fetchData_after_strategies (getAvailableStrategies be) ?s1
                = (Suspended FetchData_basic, ?s2)"
      "isMounted ?s2" "inflight ?s2 = []"
      using after_strategies_loaded(1) [OF loaded] s1 by simp_all
    have step2: "step (Resume 0 be now) (?s1\<lparr>inflight := [FetchData_strategies]\<rparr>)
                   = ?s2\<lparr>inflight := [FetchData_basic]\<rparr>"
      using s2 by (simp add: resume_def settle_parked)
    let ?basic = "fetchData_after_basic (getHealth be) (getAllStrategiesStatus be) (getWallet be) ?s2"
    let ?s3 = "snd ?basic"
    let ?market = "fetchData_after_market (getMarketData be) True ?s3"
    let ?s4 = "snd ?market"
    show ?thesis
    proof (cases "health_check_fails be")
      case True
      have s3: "\<exists>msg. fst ?basic = Finished (Caught msg)" "inflight ?s3 = []"
        using after_basic_fails(1) [OF s2(2) True] s2(3) by (simp_all add: phase_frames)
      then obtain msg where caught: "fst ?basic = Finished (Caught msg)"
        by blast
      have "step (Resume 0 be now) (?s2\<lparr>inflight := [FetchData_basic]\<rparr>) = ?s3"
        using caught s3(2) by (simp add: resume_def settle_parked remove_nth_def)
      moreover note nothing_to_resume [OF s3(2)]
      moreover have "snd (sync_cycle always_renders be now s) = ?s3"
        using s1(1) s2(1) caught by (simp add: cycle_defs case_prod_beta)
      ultimately show ?thesis
        using called step2 by simp
    next
      case healthy: False
      have "fst ?basic = Suspended (FetchData_market True)"
        using s2(2) healthy
        by (simp add: fetchData_after_basic_def health_check_fails_def Let_def
            split: settled.splits)
      moreover have "inflight ?s3 = []"
        using s2(3) by (simp add: phase_frames)
      ultimately have parked: "fst ?basic = Suspended (FetchData_market True)" "inflight ?s3 = []"
        by simp_all
      have step3: "step (Resume 0 be now) (?s2\<lparr>inflight := [FetchData_basic]\<rparr>)
                     = ?s3\<lparr>inflight := [FetchData_market True]\<rparr>"
        using parked by (simp add: resume_def settle_parked)
      show ?thesis
      proof (cases "getHealth be = Fulfilled JNull")
        case True
        note gone = after_basic_null(2) [OF s2(2) True]
        note returned = after_market_unmounted [OF gone]
        have s4: "inflight ?s4 = []"
          using parked(2) by (simp add: phase_frames)
        have "step (Resume 0 be now) (?s3\<lparr>inflight := [FetchData_market True]\<rparr>) = ?s4"
          using returned(1) s4 by (simp add: resume_def settle_parked remove_nth_def)
        moreover note nothing_to_resume [OF s4]
        moreover have "snd (sync_cycle always_renders be now s) = ?s4"
          using s1(1) s2(1) parked(1) returned(1) by (simp add: cycle_defs case_prod_beta)
        ultimately show ?thesis
          using called step2 step3 by simp
      next
        case payload: False
        have s3: "isMounted ?s3"
          using after_basic_healthy(6) [OF s2(2) healthy payload] .
        have s4: "fst ?market = Suspended (FetchData_additional True True True)" "isMounted ?s4"
          "inflight ?s4 = []"
          using after_market_mounted(1,7) [OF s3] parked(2) by (simp_all add: phase_frames)
        have step4: "step (Resume 0 be now) (?s3\<lparr>inflight := [FetchData_market True]\<rparr>)
                       = ?s4\<lparr>inflight := [FetchData_additional True True True]\<rparr>"
          using s4 by (simp add: resume_def settle_parked)
        let ?s5 = "fetchPositionData (getPositions be) ?s4"
        let ?s6 = "fetchTradeData (getTrades be) (getTradeStats be) ?s5"
        let ?s7 = "fetchSystemHealth (getSystemHealth be) ?s6"
        let ?s8 = "snd (fetchData_after_additional now ?s7)"
        have step5: "step (Resume_sub 0 Positions be now)
                       (?s4\<lparr>inflight := [FetchData_additional True True True]\<rparr>)
                       = ?s5\<lparr>inflight := [FetchData_additional False True True]\<rparr>"
          by (simp add: resume_sub_def join_def)
        have step6: "step (Resume_sub 0 Trades be now)
                       (?s5\<lparr>inflight := [FetchData_additional False True True]\<rparr>)
                       = ?s6\<lparr>inflight := [FetchData_additional False False True]\<rparr>"
          by (simp add: resume_sub_def join_def)
        have s8: "inflight ?s8 = []"
          using s4(3) by (simp add: phase_frames)
        have step7: "step (Resume_sub 0 SystemHealth be now)
                       (?s6\<lparr>inflight := [FetchData_additional False False True]\<rparr>) = ?s8"
          using s8 by (simp add: resume_sub_def join_def settle_parked remove_nth_def
              fetchData_after_additional_def)
        have "snd (sync_cycle always_renders be now s) = ?s8"
          using s1(1,2) s2(1) parked(1) s3 s4(1)
          by (simp add: cycle_defs Let_def case_prod_beta fetchData_after_additional_def)
        then show ?thesis
          using called step2 step3 step4 step5 step6 step7 by simp
      qed
    qed
  qed
qed

text \<open>
  Under any render function it holds for the cycles that leave the component mounted; a
  render that fails in between is the event \<open>Unmount\<close>.
\<close>

lemma sync_cycle_as_events:
  assumes "inflight s = []" and "isMounted (snd (sync_cycle renders be now s))"
  shows "run [Call_fetchData, Resume 0 be now, Resume 0 be now, Resume 0 be now,
              Resume_sub 0 Positions be now, Resume_sub 0 Trades be now,
              Resume_sub 0 SystemHealth be now] s
           = snd (sync_cycle renders be now s)"
  using always_cycle_as_events [OF assms(1), of be now] sync_cycle_alive(1) [OF assms(2)]
  by simp

section \<open>The socket feed after a symbol switch and after unmount\<close>

lemmas socket_defs = connectWebSocket_def close_current_def close_socket_def ws_onclose_def
  ws_onmessage_def select_symbol_def unmount_def run_callback_def remove_nth_def
  TRACKED_SYMBOLS_def

lemma mounted_dashboard_sockets:
  "sockets mounted_dashboard = [\<lparr>ws_symbol = ''BTCUSD'', readyState = CONNECTING\<rparr>]"
  "wsRef mounted_dashboard = Some 0" "timers mounted_dashboard = []"
  "selectedSymbol (vm mounted_dashboard) = ''BTCUSD''"
  "marketData (vm mounted_dashboard) = []"
  by (simp_all add: mounted_dashboard_def call_fetchData_def fetchData_start_def
      initial_dashboard_def initial_view_model_def connectWebSocket_def)

lemma run_append: "run (xs @ ys) s = run ys (run xs s)"
  by (induction xs arbitrary: s) simp_all

lemma healthy_backend_answers:
  "getMarketData healthy_backend symbol = Fulfilled market_snapshot"
  "getPositions healthy_backend symbol = Fulfilled market_snapshot"
  "getTrades healthy_backend = Fulfilled (JArr [])"
  "getTradeStats healthy_backend = Fulfilled market_snapshot"
  "getSystemHealth healthy_backend = Fulfilled market_snapshot"
  by (simp_all add: healthy_backend_def getMarketData_def getPositions_def getTrades_def
      getTradeStats_def getSystemHealth_def request_def response_ok_def market_snapshot_def)

text \<open>The dashboard when the first cycle has ended.\<close>

lemma after_first_cycle:
  "run first_cycle mounted_dashboard
     = \<lparr>vm = \<lparr>selectedSymbol = ''BTCUSD'', selectedStrategyType = ''ema_strategy'',
               availableStrategies = [JStr ''ema_strategy''],
               strategies = JObj [(''BTCUSD'', JObj [(''running'', JBool True)])],
               marketData = map (\<lambda>symbol. (symbol, market_snapshot)) TRACKED_SYMBOLS,
               balance = JNum 1000, wallet = JArr [JObj [(''asset'', JStr ''USD'')]],
               positionData = map (\<lambda>symbol. (symbol, market_snapshot)) TRACKED_SYMBOLS,
               tradeData = JArr [], tradeStats = market_snapshot, loading = False,
               error = None, lastUpdate = Some 1000, connectionStatus = Connected,
               retryCount = 0, alertsCount = 0, systemHealth = market_snapshot\<rparr>,
         isMounted = True, fetchInProgress = False, wsRef = Some 0, timers = [],
         inflight = [],
         sockets = [\<lparr>ws_symbol = ''BTCUSD'', readyState = CONNECTING\<rparr>]\<rparr>"
proof -
  let ?s0 = "connectWebSocket ''BTCUSD'' initial_dashboard"
  have "mounted_dashboard = step Call_fetchData ?s0"
    by (simp add: mounted_dashboard_def call_fetchData_def fetchData_start_def
        connectWebSocket_def safeSetState_def initial_dashboard_def initial_view_model_def)
  then have "run first_cycle mounted_dashboard
               = snd (sync_cycle always_renders healthy_backend 1000 ?s0)"
    using always_cycle_as_events [of ?s0 healthy_backend 1000]
    by (simp add: first_cycle_def connectWebSocket_def initial_dashboard_def)
  also have "\<dots> = \<lparr>vm = \<lparr>selectedSymbol = ''BTCUSD'', selectedStrategyType = ''ema_strategy'',
               availableStrategies = [JStr ''ema_strategy''],
               strategies = JObj [(''BTCUSD'', JObj [(''running'', JBool True)])],
               marketData = map (\<lambda>symbol. (symbol, market_snapshot)) TRACKED_SYMBOLS,
               balance = JNum 1000, wallet = JArr [JObj [(''asset'', JStr ''USD'')]],
               positionData = map (\<lambda>symbol. (symbol, market_snapshot)) TRACKED_SYMBOLS,
               tradeData = JArr [], tradeStats = market_snapshot, loading = False,
               error = None, lastUpdate = Some 1000, connectionStatus = Connected,
               retryCount = 0, alertsCount = 0, systemHealth = market_snapshot\<rparr>,
         isMounted = True, fetchInProgress = False, wsRef = Some 0, timers = [],
         inflight = [],
         sockets = [\<lparr>ws_symbol = ''BTCUSD'', readyState = CONNECTING\<rparr>]\<rparr>"
    by (simp add: cycle_defs healthy_backend_mandatory healthy_backend_slices
        healthy_backend_answers fetchData_start_def fetchData_after_strategies_def
        fetchAvailableStrategies_def allStrategies_def truthy_opt_def fetchData_after_basic_def
        set_balance_def js_or_def fetchData_after_market_def market_result_def
        fetchData_after_additional_def fetchPositionData_def fetchTradeData_def
        fetchSystemHealth_def fetchData_finally_def safeSetState_def connectWebSocket_def
        initial_dashboard_def initial_view_model_def TRACKED_SYMBOLS_def assign_def Let_def
        market_snapshot_def)
  finally show ?thesis .
qed

lemma first_cycle_main_view:
  "main_view (vm (run (first_cycle @ [Ws_open 0]) mounted_dashboard))"
  by (simp add: run_append after_first_cycle main_view_def loading_screen_def error_screen_def)

lemma after_switch:
  "sockets (run switch_trace mounted_dashboard)
     = [\<lparr>ws_symbol = ''BTCUSD'', readyState = CLOSED\<rparr>,
        \<lparr>ws_symbol = ''ETHUSD'', readyState = CONNECTING\<rparr>,
        \<lparr>ws_symbol = ''BTCUSD'', readyState = OPEN\<rparr>]"
  "selectedSymbol (vm (run switch_trace mounted_dashboard)) = ''ETHUSD''"
  "marketData (vm (run switch_trace mounted_dashboard))
     = map (\<lambda>symbol. (symbol, market_snapshot)) TRACKED_SYMBOLS"
  "isMounted (run switch_trace mounted_dashboard)"
  by (simp_all add: switch_trace_def run_append after_first_cycle socket_defs main_view_def
      loading_screen_def error_screen_def)

lemma patch_first_update:
  "patch_market ''BTCUSD'' price_update [] = [(''BTCUSD'', price_update)]"
  by (simp add: patch_market_def spread_into_def assign_def price_update_def)

lemma patch_later_update:
  "patch_market ''BTCUSD'' price_update (map (\<lambda>symbol. (symbol, market_snapshot)) TRACKED_SYMBOLS)
     = (''BTCUSD'', price_update) # map (\<lambda>symbol. (symbol, market_snapshot)) (tl TRACKED_SYMBOLS)"
  by (simp add: patch_market_def spread_into_def assign_def price_update_def market_snapshot_def
      TRACKED_SYMBOLS_def)

text \<open>
  Claim C5 fails on the code. The first cycle has ended and the main view is shown. After
  the switch from BTCUSD to ETHUSD the first BTCUSD socket is closed, but its
  \<^verbatim>\<open>onclose\<close> handler has reconnected the BTCUSD channel, and a message on that channel is
  merged into the view model: the handler checks neither the selected symbol nor any
  generation counter.
\<close>

theorem closed_channel_still_feeds:
  "main_view (vm (run (first_cycle @ [Ws_open 0]) mounted_dashboard))
 \<and> selectedSymbol (vm (run switch_trace mounted_dashboard)) = ''ETHUSD''
 \<and> ws_symbol (sockets (run switch_trace mounted_dashboard) ! 0) = ''BTCUSD''
 \<and> readyState (sockets (run switch_trace mounted_dashboard) ! 0) = CLOSED
 \<and> ws_symbol (sockets (run switch_trace mounted_dashboard) ! 2) = ''BTCUSD''
 \<and> readyState (sockets (run switch_trace mounted_dashboard) ! 2) = OPEN
 \<and> map_of (marketData (vm (run switch_trace mounted_dashboard))) ''BTCUSD''
      = Some market_snapshot
 \<and> map_of (marketData (vm (step (Ws_message 2 (Some price_update))
                               (run switch_trace mounted_dashboard)))) ''BTCUSD''
      = Some price_update
 \<and> price_update \<noteq> market_snapshot
 \<and> vm (step (Ws_message 2 (Some price_update)) (run switch_trace mounted_dashboard))
      \<noteq> vm (run switch_trace mounted_dashboard)"
proof -
  have before: "map_of (marketData (vm (run switch_trace mounted_dashboard))) ''BTCUSD''
                  = Some market_snapshot"
    by (simp add: after_switch TRACKED_SYMBOLS_def)
  have merged: "map_of (marketData (vm (step (Ws_message 2 (Some price_update))
                                          (run switch_trace mounted_dashboard)))) ''BTCUSD''
                  = Some price_update"
    by (simp add: after_switch ws_onmessage_def patch_later_update)
  have differ: "price_update \<noteq> market_snapshot"
    by (simp add: price_update_def market_snapshot_def)
  with before merged
  have "marketData (vm (step (Ws_message 2 (Some price_update))
                          (run switch_trace mounted_dashboard)))
          \<noteq> marketData (vm (run switch_trace mounted_dashboard))"
    by (metis option.inject)
  then have changed: "vm (step (Ws_message 2 (Some price_update))
                             (run switch_trace mounted_dashboard))
                        \<noteq> vm (run switch_trace mounted_dashboard)"
    by metis
  have channels: "selectedSymbol (vm (run switch_trace mounted_dashboard)) = ''ETHUSD''"
    "ws_symbol (sockets (run switch_trace mounted_dashboard) ! 0) = ''BTCUSD''"
    "readyState (sockets (run switch_trace mounted_dashboard) ! 0) = CLOSED"
    "ws_symbol (sockets (run switch_trace mounted_dashboard) ! 2) = ''BTCUSD''"
    "readyState (sockets (run switch_trace mounted_dashboard) ! 2) = OPEN"
    by (simp_all add: after_switch)
  from first_cycle_main_view channels before merged differ changed show ?thesis
    by (intro conjI)
qed

lemma after_unmount:
  "sockets (run unmount_trace mounted_dashboard)
     = [\<lparr>ws_symbol = ''BTCUSD'', readyState = CLOSED\<rparr>,
        \<lparr>ws_symbol = ''BTCUSD'', readyState = OPEN\<rparr>]"
  "marketData (vm (run unmount_trace mounted_dashboard)) = []"
  "\<not> isMounted (run unmount_trace mounted_dashboard)"
  by (simp_all add: unmount_trace_def socket_defs mounted_dashboard_sockets
      mounted_dashboard_state)

text \<open>
  Claim C6 fails on the code. After the unmount the \<^verbatim>\<open>onclose\<close> handler of the closed
  socket still reconnects (its timeout is not cleared and its callback does not look at
  \<^verbatim>\<open>isMounted\<close>), and the \<^verbatim>\<open>onmessage\<close> handler of the new socket calls
  \<^verbatim>\<open>setMarketData\<close> directly, not through \<^verbatim>\<open>safeSetState\<close>: the view model is written
  while \<^verbatim>\<open>isMounted\<close> is false.
\<close>

theorem write_after_unmount:
  "\<not> isMounted (run unmount_trace mounted_dashboard)
 \<and> readyState (sockets (run unmount_trace mounted_dashboard) ! 1) = OPEN
 \<and> marketData (vm (run unmount_trace mounted_dashboard)) = []
 \<and> marketData (vm (step (Ws_message 1 (Some price_update)) (run unmount_trace mounted_dashboard)))
      = [(''BTCUSD'', price_update)]
 \<and> vm (step (Ws_message 1 (Some price_update)) (run unmount_trace mounted_dashboard))
      \<noteq> vm (run unmount_trace mounted_dashboard)"
proof -
  have merged: "marketData (vm (step (Ws_message 1 (Some price_update))
                                  (run unmount_trace mounted_dashboard)))
                  = [(''BTCUSD'', price_update)]"
    by (simp add: after_unmount ws_onmessage_def patch_first_update)
  then have "marketData (vm (step (Ws_message 1 (Some price_update))
                                (run unmount_trace mounted_dashboard)))
               \<noteq> marketData (vm (run unmount_trace mounted_dashboard))"
    by (simp add: after_unmount)
  then have "vm (step (Ws_message 1 (Some price_update)) (run unmount_trace mounted_dashboard))
               \<noteq> vm (run unmount_trace mounted_dashboard)"
    by metis
  with merged show ?thesis
    by (simp add: after_unmount)
qed

text \<open>
  Every other path honours the liveness flag: once the component is unmounted, only a
  socket message changes the view model.
\<close>

lemma safeSetState_unmounted: "\<not> isMounted s \<Longrightarrow> safeSetState f s = s"
  by (simp add: safeSetState_def)

lemma unmounted_view_model:
  assumes "\<not> isMounted s"
  shows "vm (step e s) = vm s \<or> (\<exists>i payload. e = Ws_message i payload)"
proof (cases e)
  case (Resume i be now)
  have "vm (resume i be now s) = vm s"
  proof (cases "i < length (inflight s)")
    case False
    then show ?thesis by (simp add: resume_def)
  next
    case True
    with assms show ?thesis
      by (cases "inflight s ! i")
         (simp_all add: resume_def settle_def case_prod_beta safeSetState_unmounted
            fetchData_after_strategies_def fetchAvailableStrategies_def fetchData_catch_def
            fetchData_finally_def fetchData_after_basic_def fetchData_after_market_def
            fetchStrategiesStatus_def fetchMarketData_def handleStartStrategy_def
            handleStopStrategy_def Let_def
            split: settled.splits option.splits)
  qed
  with Resume show ?thesis by simp
next
  case (Resume_sub i sub be now)
  have "vm (resume_sub i sub be now s) = vm s"
  proof (cases "i < length (inflight s)")
    case False
    then show ?thesis by (simp add: resume_sub_def)
  next
    case True
    have "vm (join j p t h now s') = vm s'" if "\<not> isMounted s'" for j p t h s'
      using that
      by (simp add: join_def settle_def fetchData_after_additional_def fetchData_finally_def
          safeSetState_unmounted)
    moreover have "fetchPositionData r s = s" "fetchTradeData a b s = s"
      "fetchSystemHealth c s = s" for r a b c
      using assms
      by (simp_all add: fetchPositionData_def fetchTradeData_def fetchSystemHealth_def
          safeSetState_unmounted split: settled.splits)
    ultimately show ?thesis
      using assms True
      by (cases "inflight s ! i"; cases sub) (simp_all add: resume_sub_def)
  qed
  with Resume_sub show ?thesis by simp
next
  case (Timeout i)
  have "vm (run_callback cb s') = vm s'" if "\<not> isMounted s'" for cb s'
    using that by (cases cb) (simp_all add: run_callback_def connectWebSocket_def)
  from this [where s' = "s\<lparr>timers := remove_nth i (timers s)\<rparr>"] assms Timeout
  show ?thesis by simp
next
  case (Ws_message i payload)
  then show ?thesis by simp
qed (use assms in \<open>simp_all add: call_fetchData_def fetchData_start_def select_symbol_def
      ws_onclose_def unmount_def close_current_def close_socket_def split: option.splits\<close>)


end
